theory Spec2Isabelle
  imports Complex_Main "HOL-Library.AList"
begin

section \<open>The measurement engine (lib/benchmark)\<close>

subsection \<open>Values shared by the engine and the adapters\<close>

text \<open>
  A string is a byte string: the UTF-8 form of a well-formed JavaScript string (one
  without an unpaired surrogate).

  What a \<^verbatim>\<open>throw\<close> or a rejected promise carries, as far as the program looks at it: the
  catch block of \<^verbatim>\<open>runBenchmark\<close> reads \<^verbatim>\<open>e.message\<close>, the PouchDB adapter reads
  \<^verbatim>\<open>e.status\<close>. A value other than \<^verbatim>\<open>null\<close> and \<^verbatim>\<open>undefined\<close> is \<open>JsError\<close> with the two
  properties, either of which may be missing; reading a property of \<^verbatim>\<open>null\<close> or
  \<^verbatim>\<open>undefined\<close> (\<open>Nullish\<close>) throws a TypeError.
\<close>

datatype js_error = JsError "string option" "nat option" | Nullish

definition TypeError :: "string \<Rightarrow> js_error" where
  "TypeError m = JsError (Some m) None"

definition RangeError :: "string \<Rightarrow> js_error" where
  "RangeError m = JsError (Some m) None"

definition nullishProperty :: js_error where
  "nullishProperty = TypeError ''Cannot read properties of undefined''"

text \<open>The read of \<^verbatim>\<open>e.status\<close>.\<close>

definition statusOf :: "js_error \<Rightarrow> js_error + nat option" where
  "statusOf e = (case e of Nullish \<Rightarrow> Inl nullishProperty | JsError msg st \<Rightarrow> Inr st)"

text \<open>
  The outcome of awaiting a promise: fulfilled with a value or rejected with an error,
  in both cases together with the state the world is left in. Operations are taken to
  settle; a backend call that never settles stalls the program and is not modelled.
\<close>

datatype ('a, 'w) settled = Fulfilled 'a 'w | Rejected js_error 'w

fun world_of :: "('a, 'w) settled \<Rightarrow> 'w" where
  "world_of (Fulfilled x w) = w"
| "world_of (Rejected e w) = w"

fun value_of :: "('a, 'w) settled \<Rightarrow> 'a option" where
  "value_of (Fulfilled x w) = Some x"
| "value_of (Rejected e w) = None"

text \<open>The interface \<^verbatim>\<open>StorageAdapter\<close> of lib/storage, over a world of type \<open>'w\<close>.\<close>

record 'w StorageAdapter =
  name :: string
  "write" :: "string \<Rightarrow> string \<Rightarrow> 'w \<Rightarrow> (unit, 'w) settled"
  read :: "string \<Rightarrow> 'w \<Rightarrow> (string option, 'w) settled"
  delete :: "string \<Rightarrow> 'w \<Rightarrow> (unit, 'w) settled"
  clear :: "'w \<Rightarrow> (unit, 'w) settled"

text \<open>
  What the engine uses of its host: \<^verbatim>\<open>performance.now()\<close>, a reading of the world's
  clock in milliseconds, \<^verbatim>\<open>wait(ms)\<close>, a timer, and the longest string the JavaScript
  engine makes. Times are exact reals.
\<close>

record 'w runtime =
  performance_now :: "'w \<Rightarrow> real"
  wait :: "real \<Rightarrow> 'w \<Rightarrow> 'w"
  maxStringLength :: nat

text \<open>The size of a payload is an integer, as the data model has it (the type
  \<^verbatim>\<open>number\<close> of the source also has fractions, which \<^verbatim>\<open>repeat\<close> truncates, and infinity,
  which it refuses like a size over the limit).\<close>

record payload =
  label :: string
  payload_size :: int

record BenchmarkSuite =
  suite_name :: string
  payloads :: "payload list"

record BenchmarkResult =
  adapterName :: string
  suiteName :: string
  payloadSize :: string
  writeTime :: real
  readTime :: real
  blockingTime :: real
  error :: "string option"

subsection \<open>The catalogue\<close>

definition suites :: "BenchmarkSuite list" where
  "suites =
    [\<lparr>suite_name = ''Save a preference (128 B)'',
        payloads = [\<lparr>label = ''128 B'', payload_size = 128\<rparr>]\<rparr>,
     \<lparr>suite_name = ''Persist UI state (1 KB)'',
        payloads = [\<lparr>label = ''1 KB'', payload_size = 1024\<rparr>]\<rparr>,
     \<lparr>suite_name = ''Persist UI state (10 KB)'',
        payloads = [\<lparr>label = ''10 KB'', payload_size = 10 * 1024\<rparr>]\<rparr>,
     \<lparr>suite_name = ''Offline dataset (100 KB)'',
        payloads = [\<lparr>label = ''100 KB'', payload_size = 100 * 1024\<rparr>]\<rparr>,
     \<lparr>suite_name = ''Offline dataset (1 MB)'',
        payloads = [\<lparr>label = ''1 MB'', payload_size = 1024 * 1024\<rparr>]\<rparr>,
     \<lparr>suite_name = ''Offline dataset (2 MB)'',
        payloads = [\<lparr>label = ''2 MB'', payload_size = 2 * 1024 * 1024\<rparr>]\<rparr>,
     \<lparr>suite_name = ''Offline dataset (4 MB)'',
        payloads = [\<lparr>label = ''4 MB'', payload_size = 4 * 1024 * 1024\<rparr>]\<rparr>,
     \<lparr>suite_name = ''Offline dataset (8 MB)'',
        payloads = [\<lparr>label = ''8 MB'', payload_size = 8 * 1024 * 1024\<rparr>]\<rparr>,
     \<lparr>suite_name = ''Offline dataset (16 MB)'',
        payloads = [\<lparr>label = ''16 MB'', payload_size = 16 * 1024 * 1024\<rparr>]\<rparr>,
     \<lparr>suite_name = ''Large dataset (32 MB)'',
        payloads = [\<lparr>label = ''32 MB'', payload_size = 32 * 1024 * 1024\<rparr>]\<rparr>,
     \<lparr>suite_name = ''Large dataset (64 MB)'',
        payloads = [\<lparr>label = ''64 MB'', payload_size = 64 * 1024 * 1024\<rparr>]\<rparr>,
     \<lparr>suite_name = ''Large dataset (100 MB)'',
        payloads = [\<lparr>label = ''100 MB'', payload_size = 100 * 1024 * 1024\<rparr>]\<rparr>]"

text \<open>\<^verbatim>\<open>"a".repeat(size)\<close> throws a RangeError for a negative count and for a string
  longer than the engine makes.\<close>

definition generatePayload :: "nat \<Rightarrow> int \<Rightarrow> js_error + string" where
  "generatePayload limit n =
     (if n < 0 then Inl (RangeError ''Invalid count value'')
      else if int limit < n then Inl (RangeError ''Invalid string length'')
      else Inr (replicate (nat n) CHR ''a''))"

subsection \<open>One timed trial\<close>

text \<open>
  \<^verbatim>\<open>runOnce\<close>: clear, then a timed write, then a timed read of the same key. A rejected
  operation rejects the trial at once, in the world that operation left.
\<close>

definition runOnce ::
  "'w runtime \<Rightarrow> 'w StorageAdapter \<Rightarrow> string \<Rightarrow> string \<Rightarrow> 'w \<Rightarrow> (real \<times> real, 'w) settled" where
  "runOnce rt adapter key data w0 =
     (case clear adapter w0 of
        Rejected e w \<Rightarrow> Rejected e w
      | Fulfilled u w1 \<Rightarrow>
          (let writeStart = performance_now rt w1 in
           case write adapter key data w1 of
             Rejected e w \<Rightarrow> Rejected e w
           | Fulfilled u' w2 \<Rightarrow>
               (let writeEnd = performance_now rt w2;
                    wTime = writeEnd - writeStart;
                    readStart = performance_now rt w2 in
                case read adapter key w2 of
                  Rejected e w \<Rightarrow> Rejected e w
                | Fulfilled x w3 \<Rightarrow>
                    (let readEnd = performance_now rt w3;
                         rTime = readEnd - readStart
                     in Fulfilled (wTime, rTime) w3))))"

subsection \<open>The body of the loop over the payloads\<close>

text \<open>
  The \<^verbatim>\<open>while (runs < targetRuns)\<close> loop: a pause of 50 ms, one more trial, the two
  sums and the counter updated. It returns the sums and the counter it ends with.
\<close>

function repeatRuns ::
  "'w runtime \<Rightarrow> 'w StorageAdapter \<Rightarrow> string \<Rightarrow> string \<Rightarrow> nat \<Rightarrow> nat \<Rightarrow> real \<Rightarrow> real \<Rightarrow> 'w
     \<Rightarrow> (real \<times> real \<times> nat, 'w) settled" where
  "repeatRuns rt adapter key data runs targetRuns writeAcc readAcc w =
     (if runs < targetRuns then
        (case runOnce rt adapter key data (wait rt 50 w) of
           Rejected e w' \<Rightarrow> Rejected e w'
         | Fulfilled nextRun w' \<Rightarrow>
             repeatRuns rt adapter key data (runs + 1) targetRuns
               (writeAcc + fst nextRun) (readAcc + snd nextRun) w')
      else Fulfilled (writeAcc, readAcc, runs) w)"
  by pat_completeness auto
termination
  by (relation "measure (\<lambda>(rt, adapter, key, data, runs, targetRuns, rest). targetRuns - runs)")
     auto

declare repeatRuns.simps [simp del]

definition isSync :: "string \<Rightarrow> bool" where
  "isSync n \<longleftrightarrow> n = ''localStorage'' \<or> n = ''sessionStorage'' \<or> n = ''Cookies''"

text \<open>The \<^verbatim>\<open>try\<close> block: the first trial, the choice of the number of trials, the
  further trials, the means and the blocking time.\<close>

definition tryBlock ::
  "'w runtime \<Rightarrow> 'w StorageAdapter \<Rightarrow> BenchmarkSuite \<Rightarrow> payload \<Rightarrow> string \<Rightarrow> string \<Rightarrow> 'w
     \<Rightarrow> (BenchmarkResult, 'w) settled" where
  "tryBlock rt adapter suite p key data w0 =
     (case runOnce rt adapter key data w0 of
        Rejected e w \<Rightarrow> Rejected e w
      | Fulfilled first w1 \<Rightarrow>
          (let totalTime = fst first + snd first;
               targetRuns = (if totalTime < 10 then 3 else if totalTime < 50 then 2 else 1) in
           case repeatRuns rt adapter key data 1 targetRuns (fst first) (snd first) w1 of
             Rejected e w \<Rightarrow> Rejected e w
           | Fulfilled (writeSum, readSum, runs) w2 \<Rightarrow>
               (let wTime = writeSum / real runs;
                    rTime = readSum / real runs;
                    bTime = (if isSync (name adapter) then wTime + rTime else 1 / 2)
                in Fulfilled
                     \<lparr>adapterName = name adapter, suiteName = suite_name suite,
                      payloadSize = label p, writeTime = wTime, readTime = rTime,
                      blockingTime = bTime, error = None\<rparr> w2)))"

text \<open>The \<^verbatim>\<open>catch\<close> block: \<^verbatim>\<open>e.message || "Quota exceeded or unknown error"\<close>. A missing
  and an empty message are both falsy; for \<^verbatim>\<open>null\<close> and \<^verbatim>\<open>undefined\<close> the read of
  \<^verbatim>\<open>e.message\<close> throws, and the block pushes nothing.\<close>

definition catchBlock ::
  "'w StorageAdapter \<Rightarrow> BenchmarkSuite \<Rightarrow> payload \<Rightarrow> js_error \<Rightarrow> js_error + BenchmarkResult" where
  "catchBlock adapter suite p e =
     (case e of
        Nullish \<Rightarrow> Inl nullishProperty
      | JsError msg st \<Rightarrow>
          Inr \<lparr>adapterName = name adapter, suiteName = suite_name suite, payloadSize = label p,
               writeTime = 0, readTime = 0, blockingTime = 0,
               error = Some (case msg of
                               None \<Rightarrow> ''Quota exceeded or unknown error''
                             | Some m \<Rightarrow> if m = [] then ''Quota exceeded or unknown error''
                                         else m)\<rparr>)"

text \<open>
  The \<^verbatim>\<open>for\<close> loop, with the array \<^verbatim>\<open>results\<close> it pushes to. \<^verbatim>\<open>generatePayload\<close> is called
  before the \<^verbatim>\<open>try\<close> block: what it throws, like what the \<^verbatim>\<open>catch\<close> block throws, leaves
  the loop and rejects the promise of \<^verbatim>\<open>runBenchmark\<close>, and the results pushed so far are
  lost with it.
\<close>

fun forPayloads ::
  "'w runtime \<Rightarrow> 'w StorageAdapter \<Rightarrow> BenchmarkSuite \<Rightarrow> payload list \<Rightarrow> BenchmarkResult list \<Rightarrow> 'w
     \<Rightarrow> (BenchmarkResult list, 'w) settled" where
  "forPayloads rt adapter suite [] results w = Fulfilled results w"
| "forPayloads rt adapter suite (p # ps) results w =
     (case generatePayload (maxStringLength rt) (payload_size p) of
        Inl e \<Rightarrow> Rejected e w
      | Inr data \<Rightarrow>
          (let key = ''bench_'' @ label p in
           case tryBlock rt adapter suite p key data w of
             Fulfilled r w' \<Rightarrow> forPayloads rt adapter suite ps (results @ [r]) w'
           | Rejected e w' \<Rightarrow>
               (case catchBlock adapter suite p e of
                  Inl e' \<Rightarrow> Rejected e' w'
                | Inr r \<Rightarrow> forPayloads rt adapter suite ps (results @ [r]) w')))"

definition runBenchmark ::
  "'w runtime \<Rightarrow> 'w StorageAdapter \<Rightarrow> BenchmarkSuite \<Rightarrow> 'w
     \<Rightarrow> (BenchmarkResult list, 'w) settled" where
  "runBenchmark rt adapter suite w = forPayloads rt adapter suite (payloads suite) [] w"

subsection \<open>What the properties are stated with\<close>

text \<open>
  The further trials after the first, told as the specification tells them: \<open>n\<close> times a
  pause of 50 ms and one trial, stopping at the first trial that is rejected; the list
  holds the timings of the trials that ran.
\<close>

fun furtherTrials ::
  "'w runtime \<Rightarrow> 'w StorageAdapter \<Rightarrow> string \<Rightarrow> string \<Rightarrow> nat \<Rightarrow> 'w
     \<Rightarrow> ((real \<times> real) list, 'w) settled" where
  "furtherTrials rt adapter key data 0 w = Fulfilled [] w"
| "furtherTrials rt adapter key data (Suc n) w =
     (case runOnce rt adapter key data (wait rt 50 w) of
        Rejected e w' \<Rightarrow> Rejected e w'
      | Fulfilled t w' \<Rightarrow>
          (case furtherTrials rt adapter key data n w' of
             Rejected e w'' \<Rightarrow> Rejected e w''
           | Fulfilled ts w'' \<Rightarrow> Fulfilled (t # ts) w''))"

definition trialsFor :: "real \<Rightarrow> nat" where
  "trialsFor totalTime = (if totalTime < 10 then 3 else if totalTime < 50 then 2 else 1)"

text \<open>
  \<^verbatim>\<open>performance.now()\<close> is a monotonic clock: no write and no read of the adapter ends
  at an earlier reading than it started at.
\<close>

definition clock_monotone :: "'w runtime \<Rightarrow> 'w StorageAdapter \<Rightarrow> bool" where
  "clock_monotone rt adapter \<longleftrightarrow>
     (\<forall>k v w. performance_now rt w \<le> performance_now rt (world_of (write adapter k v w))) \<and>
     (\<forall>k w. performance_now rt w \<le> performance_now rt (world_of (read adapter k w)))"

section \<open>The browser, as far as the adapters use it\<close>

text \<open>
  The adapters of lib/storage are thin bindings to the storage interfaces of the browser
  and to four libraries. Those are not part of the repository: this section states what
  they do, after the standards (Web Storage, IndexedDB, Service Worker caches, RFC 6265bis
  for cookies, the File System standard for the origin private file system, ECMA-262 for
  the URI and JSON functions) and the libraries' documentation. Each store is an
  association list with one entry per key, in order of creation.
\<close>

type_synonym area = "(string \<times> string) list"

record pouch_doc =
  doc_rev :: nat
  doc_value :: string
  doc_deleted :: bool

text \<open>
  One origin's state. \<open>clock\<close> is what \<^verbatim>\<open>performance.now()\<close> reads. \<open>storageQuota\<close> is
  the capacity of a Web Storage area and \<open>cookieLimit\<close> the largest cookie (name and value)
  the jar accepts; both differ between browsers (about 5 MiB and 4096 bytes), so they are
  parameters. \<open>cookieRefused\<close> stands for the further grounds on which this browser
  ignores the cookie of a given name and value that a script assigns: cookies blocked for
  the site, a cookie of that name which a script may not overwrite (one that is HttpOnly,
  or Secure on an insecure origin), a name the browser reserves. \<open>parseURL\<close> is the
  browser's URL parser against the document's base URL (the URL without its fragment, or
  nothing when the string is not a URL), \<open>isHttp\<close> tells whether a URL has the scheme
  http or https. A database or cache that was never opened,
  and a file system the browser does not offer, is \<open>None\<close>. The capacity of the
  other stores is not modelled.
\<close>

record browser =
  clock :: real
  storageQuota :: nat
  localStorage :: area
  sessionStorage :: area
  benchmark_db :: "area option"
  parseURL :: "string \<Rightarrow> string option"
  isHttp :: "string \<Rightarrow> bool"
  benchmark_cache :: "area option"
  cookieLimit :: nat
  cookieRefused :: "string \<Rightarrow> string \<Rightarrow> bool"
  cookieJar :: area
  dexie_benchmark :: area
  pouch_benchmark :: "(string \<times> pouch_doc) list"
  localforage_benchmark :: area
  opfsRoot :: "area option"

text \<open>The host of the engine in this browser; the longest string is that of V8,
  536870888 characters (SpiderMonkey makes 1073741822, JavaScriptCore 2147483647).\<close>

definition browser_runtime :: "browser runtime" where
  "browser_runtime =
     \<lparr>performance_now = clock, wait = (\<lambda>ms w. w\<lparr>clock := clock w + ms\<rparr>),
      maxStringLength = 536870888\<rparr>"

subsection \<open>Errors the browser and the libraries raise\<close>

definition QuotaExceededError :: js_error where
  "QuotaExceededError = JsError (Some ''The quota has been exceeded.'') None"

definition URIError :: js_error where
  "URIError = JsError (Some ''URI malformed'') None"

definition NotFoundError :: js_error where
  "NotFoundError =
     JsError (Some ''A requested file or directory could not be found at the time an operation was processed.'') None"

definition pouch_missing :: js_error where
  "pouch_missing = JsError (Some ''missing'') (Some 404)"

definition pouch_conflict :: js_error where
  "pouch_conflict = JsError (Some ''Document update conflict'') (Some 409)"

definition pouch_missing_id :: js_error where
  "pouch_missing_id = JsError (Some ''_id is required for puts'') (Some 412)"

definition pouch_reserved_id :: js_error where
  "pouch_reserved_id =
     JsError (Some ''Only reserved document ids may start with underscore.'') (Some 400)"

subsection \<open>Web Storage\<close>

definition area_size :: "area \<Rightarrow> nat" where
  "area_size al = sum_list (map (\<lambda>(k, v). length k + length v) al)"

text \<open>\<^verbatim>\<open>setItem\<close> throws when the area would outgrow its quota, and then changes nothing.\<close>

definition Storage_setItem :: "nat \<Rightarrow> string \<Rightarrow> string \<Rightarrow> area \<Rightarrow> js_error + area" where
  "Storage_setItem quota k v al =
     (let al' = AList.update k v al
      in if area_size al' \<le> quota then Inr al' else Inl QuotaExceededError)"

definition Storage_getItem :: "string \<Rightarrow> area \<Rightarrow> string option" where
  "Storage_getItem k al = map_of al k"

definition Storage_removeItem :: "string \<Rightarrow> area \<Rightarrow> area" where
  "Storage_removeItem k al = AList.delete k al"

subsection \<open>Strings: split, trim, the URI functions\<close>

text \<open>\<^verbatim>\<open>s.split(sep)\<close> for a separator of one character; it never returns the empty array.\<close>

fun split :: "char \<Rightarrow> string \<Rightarrow> string list" where
  "split sep [] = [[]]"
| "split sep (c # cs) =
     (if c = sep then [] # split sep cs
      else (case split sep cs of [] \<Rightarrow> [[c]] | part # parts \<Rightarrow> (c # part) # parts))"

fun join :: "string \<Rightarrow> string list \<Rightarrow> string" where
  "join sep [] = []"
| "join sep [x] = x"
| "join sep (x # y # ys) = x @ sep @ join sep (y # ys)"

definition isWhiteSpace :: "char \<Rightarrow> bool" where
  "isWhiteSpace c \<longleftrightarrow> c \<in> set [CHR 0x09, CHR 0x0A, CHR 0x0B, CHR 0x0C, CHR 0x0D, CHR 0x20]"

text \<open>\<^verbatim>\<open>s.trim()\<close>, on the white space of ASCII.\<close>

definition trim :: "string \<Rightarrow> string" where
  "trim s = rev (dropWhile isWhiteSpace (rev (dropWhile isWhiteSpace s)))"

definition uriUnreserved :: "char \<Rightarrow> bool" where
  "uriUnreserved c \<longleftrightarrow>
     c \<in> set (''ABCDEFGHIJKLMNOPQRSTUVWXYZabcdefghijklmnopqrstuvwxyz0123456789-_.!~*()''
              @ [CHR 0x27])"

definition hexDigitUpper :: "nat \<Rightarrow> char" where
  "hexDigitUpper d = ''0123456789ABCDEF'' ! (d mod 16)"

definition hexDigitLower :: "nat \<Rightarrow> char" where
  "hexDigitLower d = ''0123456789abcdef'' ! (d mod 16)"

definition percentEncode :: "char \<Rightarrow> string" where
  "percentEncode c =
     [CHR ''%'', hexDigitUpper (of_char c div 16), hexDigitUpper (of_char c mod 16)]"

text \<open>\<^verbatim>\<open>encodeURIComponent\<close>: every byte of the UTF-8 form that is not an unreserved
  character becomes \<^verbatim>\<open>%XX\<close>.\<close>

definition encodeURIComponent :: "string \<Rightarrow> string" where
  "encodeURIComponent s = concat (map (\<lambda>c. if uriUnreserved c then [c] else percentEncode c) s)"

definition hexValue :: "char \<Rightarrow> nat option" where
  "hexValue c =
     (let n = of_char c :: nat
      in if 48 \<le> n \<and> n \<le> 57 then Some (n - 48)
         else if 65 \<le> n \<and> n \<le> 70 then Some (n - 55)
         else if 97 \<le> n \<and> n \<le> 102 then Some (n - 87)
         else None)"

text \<open>\<^verbatim>\<open>decodeURIComponent\<close>; \<open>None\<close> is the URIError of a \<^verbatim>\<open>%\<close> that two hexadecimal
  digits do not follow. Whether the decoded bytes are UTF-8 is not checked.\<close>

fun decodeURIComponent :: "string \<Rightarrow> string option" where
  "decodeURIComponent [] = Some []"
| "decodeURIComponent (c # cs) =
     (if c = CHR ''%'' then
        (case cs of
           h1 # h2 # rest \<Rightarrow>
             (case (hexValue h1, hexValue h2) of
                (Some a, Some b) \<Rightarrow>
                  map_option ((#) (char_of (16 * a + b))) (decodeURIComponent rest)
              | _ \<Rightarrow> None)
         | _ \<Rightarrow> None)
      else map_option ((#) c) (decodeURIComponent cs))"

text \<open>
  \<^verbatim>\<open>text()\<close> of a response or a file is the UTF-8 decode of the Encoding standard: it skips
  a byte order mark at the start. (The bytes stored are the UTF-8 form of a string, so the
  replacement of ill-formed sequences does not arise.)
\<close>

definition utf8Decode :: "string \<Rightarrow> string" where
  "utf8Decode bytes =
     (if take 3 bytes = [CHR 0xEF, CHR 0xBB, CHR 0xBF] then drop 3 bytes else bytes)"


subsection \<open>JSON text of a string\<close>

definition quoteJSONChar :: "char \<Rightarrow> string" where
  "quoteJSONChar c =
     (if c = CHR 0x22 then [CHR 0x5C, CHR 0x22]
      else if c = CHR 0x5C then [CHR 0x5C, CHR 0x5C]
      else if c = CHR 0x08 then [CHR 0x5C, CHR ''b'']
      else if c = CHR 0x09 then [CHR 0x5C, CHR ''t'']
      else if c = CHR 0x0A then [CHR 0x5C, CHR ''n'']
      else if c = CHR 0x0C then [CHR 0x5C, CHR ''f'']
      else if c = CHR 0x0D then [CHR 0x5C, CHR ''r'']
      else if (of_char c :: nat) < 32 then
        [CHR 0x5C, CHR ''u'', CHR ''0'', CHR ''0'',
         hexDigitLower (of_char c div 16), hexDigitLower (of_char c mod 16)]
      else [c])"

text \<open>\<^verbatim>\<open>JSON.stringify\<close> of a string.\<close>

definition JSON_stringify :: "string \<Rightarrow> string" where
  "JSON_stringify s = CHR 0x22 # concat (map quoteJSONChar s) @ [CHR 0x22]"

definition unescapeJSON :: "char \<Rightarrow> char option" where
  "unescapeJSON e =
     (if e = CHR 0x22 then Some (CHR 0x22)
      else if e = CHR 0x5C then Some (CHR 0x5C)
      else if e = CHR ''/'' then Some (CHR ''/'')
      else if e = CHR ''b'' then Some (CHR 0x08)
      else if e = CHR ''t'' then Some (CHR 0x09)
      else if e = CHR ''n'' then Some (CHR 0x0A)
      else if e = CHR ''f'' then Some (CHR 0x0C)
      else if e = CHR ''r'' then Some (CHR 0x0D)
      else None)"

text \<open>
  The characters of a JSON string literal after its opening quote; the closing quote
  must end the text. An escape \<^verbatim>\<open>\uXXXX\<close> above U+007F is not modelled
  (\<^verbatim>\<open>JSON.stringify\<close> writes none for a well-formed string).
\<close>

fun parseJSONChars :: "string \<Rightarrow> string option" where
  "parseJSONChars [] = None"
| "parseJSONChars (c # cs) =
     (if c = CHR 0x22 then (if cs = [] then Some [] else None)
      else if c = CHR 0x5C then
        (case cs of
           [] \<Rightarrow> None
         | e # rest \<Rightarrow>
             if e = CHR ''u'' then
               (case rest of
                  h1 # h2 # h3 # h4 # rest' \<Rightarrow>
                    (case (hexValue h1, hexValue h2, hexValue h3, hexValue h4) of
                       (Some a, Some b, Some c', Some d) \<Rightarrow>
                         if a = 0 \<and> b = 0 \<and> c' < 8
                         then map_option ((#) (char_of (16 * c' + d))) (parseJSONChars rest')
                         else None
                     | _ \<Rightarrow> None)
                | _ \<Rightarrow> None)
             else (case unescapeJSON e of
                     None \<Rightarrow> None
                   | Some x \<Rightarrow> map_option ((#) x) (parseJSONChars rest)))
      else if (of_char c :: nat) < 32 then None
      else map_option ((#) c) (parseJSONChars cs))"

text \<open>\<^verbatim>\<open>JSON.parse\<close>, where the text is a string literal; \<open>None\<close> for any other text.\<close>

definition JSON_parse_string :: "string \<Rightarrow> string option" where
  "JSON_parse_string s =
     (case s of [] \<Rightarrow> None | c # cs \<Rightarrow> if c = CHR 0x22 then parseJSONChars cs else None)"

subsection \<open>The cookie jar behind \<^verbatim>\<open>document.cookie\<close>\<close>

text \<open>
  The jar holds the cookies the document sees, all of path \<^verbatim>\<open>/\<close>, as pairs of name and
  value. Reading \<^verbatim>\<open>document.cookie\<close> joins them with \<^verbatim>\<open>"; "\<close>. Assigning to it parses
  one cookie as RFC 6265bis says: the text up to the first \<^verbatim>\<open>;\<close> is split at its first
  \<^verbatim>\<open>=\<close> and trimmed; a text with a control character, a cookie larger than the jar's
  limit, a cookie with neither name nor value, a cookie whose name has the prefix
  \<^verbatim>\<open>__Secure-\<close> or \<^verbatim>\<open>__Host-\<close> and which lacks the attribute \<^verbatim>\<open>Secure\<close>, and a cookie the
  browser refuses on its further grounds are ignored without an error; a \<^verbatim>\<open>Max-Age\<close> of
  zero or less removes the cookie of that name. Expiry with the passing of time is not
  modelled, nor are the attributes \<^verbatim>\<open>Domain\<close>, \<^verbatim>\<open>HttpOnly\<close> and \<^verbatim>\<open>SameSite\<close>, none of which
  the adapter writes.
\<close>

definition document_cookie :: "browser \<Rightarrow> string" where
  "document_cookie w =
     join ''; '' (map (\<lambda>(n, v). if n = [] then v else n @ ''='' @ v) (cookieJar w))"

definition isWSP :: "char \<Rightarrow> bool" where
  "isWSP c \<longleftrightarrow> c = CHR 0x20 \<or> c = CHR 0x09"

definition trimWSP :: "string \<Rightarrow> string" where
  "trimWSP s = rev (dropWhile isWSP (rev (dropWhile isWSP s)))"

definition isCTL :: "char \<Rightarrow> bool" where
  "isCTL c \<longleftrightarrow> ((of_char c :: nat) < 32 \<and> c \<noteq> CHR 0x09) \<or> c = CHR 0x7F"

definition isDigit :: "char \<Rightarrow> bool" where
  "isDigit c \<longleftrightarrow> 48 \<le> (of_char c :: nat) \<and> (of_char c :: nat) \<le> 57"

definition toLower :: "char \<Rightarrow> char" where
  "toLower c = (let n = of_char c :: nat in if 65 \<le> n \<and> n \<le> 90 then char_of (n + 32) else c)"

definition splitAtFirst :: "char \<Rightarrow> string \<Rightarrow> string \<times> string option" where
  "splitAtFirst c s =
     (if c \<in> set s
      then (takeWhile (\<lambda>x. x \<noteq> c) s, Some (tl (dropWhile (\<lambda>x. x \<noteq> c) s)))
      else (s, None))"

definition digitsValue :: "string \<Rightarrow> nat" where
  "digitsValue ds = foldl (\<lambda>n c. 10 * n + (of_char c - 48)) 0 ds"

definition parseMaxAge :: "string \<Rightarrow> int option" where
  "parseMaxAge v =
     (case v of
        [] \<Rightarrow> None
      | c # cs \<Rightarrow>
          if c = CHR ''-'' \<and> list_all isDigit cs then Some (- int (digitsValue cs))
          else if isDigit c \<and> list_all isDigit cs then Some (int (digitsValue v))
          else None)"

definition attributeMaxAge :: "string \<Rightarrow> int option" where
  "attributeMaxAge a =
     (case splitAtFirst CHR ''='' a of
        (n, None) \<Rightarrow> None
      | (n, Some v) \<Rightarrow>
          if map toLower (trimWSP n) = ''max-age'' then parseMaxAge (trimWSP v) else None)"

text \<open>Of several \<^verbatim>\<open>Max-Age\<close> attributes the last one counts.\<close>

definition cookieMaxAge :: "string list \<Rightarrow> int option" where
  "cookieMaxAge attrs =
     foldl (\<lambda>acc a. case attributeMaxAge a of None \<Rightarrow> acc | Some d \<Rightarrow> Some d) None attrs"

text \<open>The name prefixes of RFC 6265bis, matched without regard to case; a cookie without
  a name is treated by its value.\<close>

definition securePrefixed :: "string \<Rightarrow> string \<Rightarrow> bool" where
  "securePrefixed n v \<longleftrightarrow>
     (let x = map toLower (if n = [] then v else n)
      in take 9 x = ''__secure-'' \<or> take 7 x = ''__host-'')"

definition hasSecureAttribute :: "string list \<Rightarrow> bool" where
  "hasSecureAttribute attrs \<longleftrightarrow>
     list_ex (\<lambda>a. map toLower (trimWSP (fst (splitAtFirst CHR ''='' a))) = ''secure'') attrs"

text \<open>Whether the jar takes the cookie of name \<open>n\<close> and value \<open>v\<close> that a script assigns
  without the attribute \<^verbatim>\<open>Secure\<close>.\<close>

definition jarAccepts :: "browser \<Rightarrow> string \<Rightarrow> string \<Rightarrow> bool" where
  "jarAccepts w n v \<longleftrightarrow>
     length n + length v \<le> cookieLimit w \<and> \<not> (n = [] \<and> v = []) \<and>
     \<not> securePrefixed n v \<and> \<not> cookieRefused w n v"

definition document_cookie_set :: "string \<Rightarrow> browser \<Rightarrow> browser" where
  "document_cookie_set s w =
     (case split CHR '';'' s of
        [] \<Rightarrow> w
      | pair # attrs \<Rightarrow>
          (let (n, v) = (case splitAtFirst CHR ''='' pair of
                           (x, None) \<Rightarrow> ([], trimWSP x)
                         | (x, Some y) \<Rightarrow> (trimWSP x, trimWSP y))
           in if list_ex isCTL s \<or> cookieLimit w < length n + length v \<or> (n = [] \<and> v = [])
                 \<or> (securePrefixed n v \<and> \<not> hasSecureAttribute attrs) \<or> cookieRefused w n v
              then w
              else (case cookieMaxAge attrs of
                      None \<Rightarrow> w\<lparr>cookieJar := AList.update n v (cookieJar w)\<rparr>
                    | Some d \<Rightarrow>
                        if d \<le> 0 then w\<lparr>cookieJar := AList.delete n (cookieJar w)\<rparr>
                        else w\<lparr>cookieJar := AList.update n v (cookieJar w)\<rparr>)))"

subsection \<open>The libraries\<close>

text \<open>
  Dexie and localForage keep their entries in IndexedDB databases of their own
  (\<^verbatim>\<open>dexie_benchmark\<close>, \<^verbatim>\<open>localforage_benchmark\<close>), PouchDB in a database \<^verbatim>\<open>pouch_benchmark\<close>;
  each is a store of its own in the browser's state.

  store.js keeps its entries in \<^verbatim>\<open>localStorage\<close>, under the key as given (the default
  store has no namespace), as JSON text. What it finds there that is not the JSON text
  of a string it hands back as it is (JSON text of other values is not modelled).
\<close>

definition store_deserialize :: "string option \<Rightarrow> string option" where
  "store_deserialize data =
     (case data of
        None \<Rightarrow> None
      | Some s \<Rightarrow>
          if s = [] then None
          else (case JSON_parse_string s of Some v \<Rightarrow> Some v | None \<Rightarrow> Some s))"

text \<open>
  PouchDB keeps documents with a revision; a removed document stays as a deleted
  revision. \<^verbatim>\<open>get\<close> fails with status 404 for a document that is missing or deleted;
  \<^verbatim>\<open>put\<close> fails with status 409 unless it names the current revision of a live document
  (none for a new one), with 412 for the empty id and with 400 for an id that starts
  with an underscore (the reserved ids \<^verbatim>\<open>_design/\<close> and \<^verbatim>\<open>_local/\<close> are not modelled).
\<close>

definition pouch_get :: "string \<Rightarrow> (string \<times> pouch_doc) list \<Rightarrow> js_error + pouch_doc" where
  "pouch_get docId docs =
     (case map_of docs docId of
        None \<Rightarrow> Inl pouch_missing
      | Some d \<Rightarrow> if doc_deleted d then Inl pouch_missing else Inr d)"

definition pouch_put ::
  "string \<Rightarrow> nat option \<Rightarrow> string \<Rightarrow> bool \<Rightarrow> (string \<times> pouch_doc) list
     \<Rightarrow> js_error + (string \<times> pouch_doc) list" where
  "pouch_put docId rv val deleted docs =
     (if docId = [] then Inl pouch_missing_id
      else if hd docId = CHR ''_'' then Inl pouch_reserved_id
      else (case map_of docs docId of
              None \<Rightarrow>
                (if rv = None
                 then Inr (AList.update docId
                            \<lparr>doc_rev = 1, doc_value = val, doc_deleted = deleted\<rparr> docs)
                 else Inl pouch_conflict)
            | Some d \<Rightarrow>
                (if rv = Some (doc_rev d) \<or> (doc_deleted d \<and> rv = None)
                 then Inr (AList.update docId
                            \<lparr>doc_rev = doc_rev d + 1, doc_value = val, doc_deleted = deleted\<rparr> docs)
                 else Inl pouch_conflict)))"

text \<open>\<^verbatim>\<open>allDocs()\<close> lists the live documents; \<^verbatim>\<open>bulkDocs\<close> applies each deletion and
  reports a conflict in its result instead of throwing.\<close>

definition pouch_allDocs :: "(string \<times> pouch_doc) list \<Rightarrow> (string \<times> nat) list" where
  "pouch_allDocs docs =
     map (\<lambda>(i, d). (i, doc_rev d)) (filter (\<lambda>(i, d). \<not> doc_deleted d) docs)"

fun pouch_bulkDocs ::
  "(string \<times> nat) list \<Rightarrow> (string \<times> pouch_doc) list \<Rightarrow> (string \<times> pouch_doc) list" where
  "pouch_bulkDocs [] docs = docs"
| "pouch_bulkDocs ((i, r) # deletions) docs =
     (case pouch_put i (Some r) [] True docs of
        Inl e \<Rightarrow> pouch_bulkDocs deletions docs
      | Inr docs' \<Rightarrow> pouch_bulkDocs deletions docs')"

subsection \<open>The origin private file system\<close>

definition validFileName :: "string \<Rightarrow> bool" where
  "validFileName n \<longleftrightarrow> n \<noteq> [] \<and> n \<noteq> ''.'' \<and> n \<noteq> ''..'' \<and> CHR ''/'' \<notin> set n"

text \<open>\<^verbatim>\<open>getFileHandle(name)\<close> and then the file's bytes: a TypeError for a name that is
  no file name, a NotFoundError where there is no such file.\<close>

definition getFileHandle :: "string \<Rightarrow> area \<Rightarrow> js_error + string" where
  "getFileHandle n dir =
     (if \<not> validFileName n then Inl (TypeError ''Name is not allowed.'')
      else (case map_of dir n of None \<Rightarrow> Inl NotFoundError | Some bytes \<Rightarrow> Inr bytes))"

text \<open>\<^verbatim>\<open>removeEntry(name)\<close> rejects with a NotFoundError where there is no such entry.\<close>

definition removeEntry :: "string \<Rightarrow> area \<Rightarrow> js_error + area" where
  "removeEntry n dir =
     (if \<not> validFileName n then Inl (TypeError ''Name is not allowed.'')
      else (case map_of dir n of
              None \<Rightarrow> Inl NotFoundError
            | Some text \<Rightarrow> Inr (AList.delete n dir)))"

section \<open>The adapters (lib/storage)\<close>

subsection \<open>LocalStorageAdapter and SessionStorageAdapter\<close>

definition LocalStorageAdapter_write :: "string \<Rightarrow> string \<Rightarrow> browser \<Rightarrow> (unit, browser) settled" where
  "LocalStorageAdapter_write key val w =
     (case Storage_setItem (storageQuota w) key val (localStorage w) of
        Inl e \<Rightarrow> Rejected e w
      | Inr al \<Rightarrow> Fulfilled () (w\<lparr>localStorage := al\<rparr>))"

definition LocalStorageAdapter_read :: "string \<Rightarrow> browser \<Rightarrow> (string option, browser) settled" where
  "LocalStorageAdapter_read key w = Fulfilled (Storage_getItem key (localStorage w)) w"

definition LocalStorageAdapter_delete :: "string \<Rightarrow> browser \<Rightarrow> (unit, browser) settled" where
  "LocalStorageAdapter_delete key w =
     Fulfilled () (w\<lparr>localStorage := Storage_removeItem key (localStorage w)\<rparr>)"

definition LocalStorageAdapter_clear :: "browser \<Rightarrow> (unit, browser) settled" where
  "LocalStorageAdapter_clear w = Fulfilled () (w\<lparr>localStorage := []\<rparr>)"

definition SessionStorageAdapter_write :: "string \<Rightarrow> string \<Rightarrow> browser \<Rightarrow> (unit, browser) settled" where
  "SessionStorageAdapter_write key val w =
     (case Storage_setItem (storageQuota w) key val (sessionStorage w) of
        Inl e \<Rightarrow> Rejected e w
      | Inr al \<Rightarrow> Fulfilled () (w\<lparr>sessionStorage := al\<rparr>))"

definition SessionStorageAdapter_read :: "string \<Rightarrow> browser \<Rightarrow> (string option, browser) settled" where
  "SessionStorageAdapter_read key w = Fulfilled (Storage_getItem key (sessionStorage w)) w"

definition SessionStorageAdapter_delete :: "string \<Rightarrow> browser \<Rightarrow> (unit, browser) settled" where
  "SessionStorageAdapter_delete key w =
     Fulfilled () (w\<lparr>sessionStorage := Storage_removeItem key (sessionStorage w)\<rparr>)"

definition SessionStorageAdapter_clear :: "browser \<Rightarrow> (unit, browser) settled" where
  "SessionStorageAdapter_clear w = Fulfilled () (w\<lparr>sessionStorage := []\<rparr>)"

subsection \<open>IndexedDBAdapter\<close>

text \<open>\<^verbatim>\<open>getDB\<close>: opening \<^verbatim>\<open>benchmark_db\<close> creates it, with the empty object store
  \<^verbatim>\<open>entries\<close>, when it does not exist. It returns the entries of the store.\<close>

definition getDB :: "browser \<Rightarrow> area \<times> browser" where
  "getDB w =
     (case benchmark_db w of
        None \<Rightarrow> ([], w\<lparr>benchmark_db := Some []\<rparr>)
      | Some entries \<Rightarrow> (entries, w))"

definition IndexedDBAdapter_write :: "string \<Rightarrow> string \<Rightarrow> browser \<Rightarrow> (unit, browser) settled" where
  "IndexedDBAdapter_write key val w =
     (let (entries, w1) = getDB w
      in Fulfilled () (w1\<lparr>benchmark_db := Some (AList.update key val entries)\<rparr>))"

text \<open>\<^verbatim>\<open>resolve(request.result || null)\<close>: a missing entry and the empty string are
  both falsy.\<close>

definition IndexedDBAdapter_read :: "string \<Rightarrow> browser \<Rightarrow> (string option, browser) settled" where
  "IndexedDBAdapter_read key w =
     (let (entries, w1) = getDB w
      in Fulfilled (case map_of entries key of
                      None \<Rightarrow> None
                    | Some v \<Rightarrow> if v = [] then None else Some v) w1)"

definition IndexedDBAdapter_delete :: "string \<Rightarrow> browser \<Rightarrow> (unit, browser) settled" where
  "IndexedDBAdapter_delete key w =
     (let (entries, w1) = getDB w
      in Fulfilled () (w1\<lparr>benchmark_db := Some (AList.delete key entries)\<rparr>))"

definition IndexedDBAdapter_clear :: "browser \<Rightarrow> (unit, browser) settled" where
  "IndexedDBAdapter_clear w =
     (let (entries, w1) = getDB w
      in Fulfilled () (w1\<lparr>benchmark_db := Some []\<rparr>))"

subsection \<open>CacheStorageAdapter\<close>

text \<open>\<^verbatim>\<open>caches.open('benchmark_cache')\<close> creates the cache when it does not exist.\<close>

definition caches_open :: "browser \<Rightarrow> area \<times> browser" where
  "caches_open w =
     (case benchmark_cache w of
        None \<Rightarrow> ([], w\<lparr>benchmark_cache := Some []\<rparr>)
      | Some cache \<Rightarrow> (cache, w))"

text \<open>\<^verbatim>\<open>new Request(key)\<close> throws a TypeError when the key is no URL, and
  \<^verbatim>\<open>cache.put\<close> when the URL is not of scheme http or https.\<close>

definition CacheStorageAdapter_write :: "string \<Rightarrow> string \<Rightarrow> browser \<Rightarrow> (unit, browser) settled" where
  "CacheStorageAdapter_write key val w =
     (let (cache, w1) = caches_open w
      in case parseURL w key of
           None \<Rightarrow> Rejected (TypeError ''Failed to parse URL'') w1
         | Some url \<Rightarrow>
             if isHttp w url
             then Fulfilled () (w1\<lparr>benchmark_cache := Some (AList.update url val cache)\<rparr>)
             else Rejected (TypeError ''Request scheme is unsupported'') w1)"

definition CacheStorageAdapter_read :: "string \<Rightarrow> browser \<Rightarrow> (string option, browser) settled" where
  "CacheStorageAdapter_read key w =
     (let (cache, w1) = caches_open w
      in case parseURL w key of
           None \<Rightarrow> Rejected (TypeError ''Failed to parse URL'') w1
         | Some url \<Rightarrow> Fulfilled (map_option utf8Decode (map_of cache url)) w1)"

definition CacheStorageAdapter_delete :: "string \<Rightarrow> browser \<Rightarrow> (unit, browser) settled" where
  "CacheStorageAdapter_delete key w =
     (let (cache, w1) = caches_open w
      in case parseURL w key of
           None \<Rightarrow> Rejected (TypeError ''Failed to parse URL'') w1
         | Some url \<Rightarrow> Fulfilled () (w1\<lparr>benchmark_cache := Some (AList.delete url cache)\<rparr>))"

definition CacheStorageAdapter_clear :: "browser \<Rightarrow> (unit, browser) settled" where
  "CacheStorageAdapter_clear w = Fulfilled () (w\<lparr>benchmark_cache := None\<rparr>)"

subsection \<open>CookieAdapter\<close>

definition CookieAdapter_write :: "string \<Rightarrow> string \<Rightarrow> browser \<Rightarrow> (unit, browser) settled" where
  "CookieAdapter_write key val w =
     Fulfilled ()
       (document_cookie_set
          (encodeURIComponent key @ ''='' @ encodeURIComponent val @ ''; path=/; Max-Age=3600'') w)"

text \<open>The loop of \<^verbatim>\<open>read\<close> over the parts of \<^verbatim>\<open>document.cookie\<close>: leading spaces are
  dropped, and the first part that starts with \<^verbatim>\<open>nameEQ\<close> gives the value.\<close>

fun CookieAdapter_read_loop :: "string \<Rightarrow> string list \<Rightarrow> js_error + string option" where
  "CookieAdapter_read_loop nameEQ [] = Inr None"
| "CookieAdapter_read_loop nameEQ (c # ca) =
     (let c' = dropWhile (\<lambda>x. x = CHR 0x20) c
      in if take (length nameEQ) c' = nameEQ
         then (case decodeURIComponent (drop (length nameEQ) c') of
                 None \<Rightarrow> Inl URIError
               | Some v \<Rightarrow> Inr (Some v))
         else CookieAdapter_read_loop nameEQ ca)"

definition CookieAdapter_read :: "string \<Rightarrow> browser \<Rightarrow> (string option, browser) settled" where
  "CookieAdapter_read key w =
     (let nameEQ = encodeURIComponent key @ ''='';
          ca = split CHR '';'' (document_cookie w)
      in case CookieAdapter_read_loop nameEQ ca of
           Inl e \<Rightarrow> Rejected e w
         | Inr r \<Rightarrow> Fulfilled r w)"

definition CookieAdapter_delete :: "string \<Rightarrow> browser \<Rightarrow> (unit, browser) settled" where
  "CookieAdapter_delete key w =
     Fulfilled ()
       (document_cookie_set (encodeURIComponent key @ ''=; path=/; Max-Age=-99999999;'') w)"

text \<open>The loop of \<^verbatim>\<open>clear\<close>: \<^verbatim>\<open>ca[i].split('=')[0].trim()\<close> is handed to \<^verbatim>\<open>delete\<close>.\<close>

fun CookieAdapter_clear_loop :: "string list \<Rightarrow> browser \<Rightarrow> (unit, browser) settled" where
  "CookieAdapter_clear_loop [] w = Fulfilled () w"
| "CookieAdapter_clear_loop (c # ca) w =
     (let key = trim (case split CHR ''='' c of [] \<Rightarrow> [] | x # xs \<Rightarrow> x)
      in case CookieAdapter_delete key w of
           Rejected e w' \<Rightarrow> Rejected e w'
         | Fulfilled u w' \<Rightarrow> CookieAdapter_clear_loop ca w')"

definition CookieAdapter_clear :: "browser \<Rightarrow> (unit, browser) settled" where
  "CookieAdapter_clear w = CookieAdapter_clear_loop (split CHR '';'' (document_cookie w)) w"

subsection \<open>DexieAdapter\<close>

definition DexieAdapter_write :: "string \<Rightarrow> string \<Rightarrow> browser \<Rightarrow> (unit, browser) settled" where
  "DexieAdapter_write key val w =
     Fulfilled () (w\<lparr>dexie_benchmark := AList.update key val (dexie_benchmark w)\<rparr>)"

text \<open>\<^verbatim>\<open>entry ? entry.value : null\<close>: an entry is an object, truthy whatever its value.\<close>

definition DexieAdapter_read :: "string \<Rightarrow> browser \<Rightarrow> (string option, browser) settled" where
  "DexieAdapter_read key w = Fulfilled (map_of (dexie_benchmark w) key) w"

definition DexieAdapter_delete :: "string \<Rightarrow> browser \<Rightarrow> (unit, browser) settled" where
  "DexieAdapter_delete key w =
     Fulfilled () (w\<lparr>dexie_benchmark := AList.delete key (dexie_benchmark w)\<rparr>)"

definition DexieAdapter_clear :: "browser \<Rightarrow> (unit, browser) settled" where
  "DexieAdapter_clear w = Fulfilled () (w\<lparr>dexie_benchmark := []\<rparr>)"

subsection \<open>StoreJsAdapter\<close>

definition StoreJsAdapter_write :: "string \<Rightarrow> string \<Rightarrow> browser \<Rightarrow> (unit, browser) settled" where
  "StoreJsAdapter_write key val w =
     (case Storage_setItem (storageQuota w) key (JSON_stringify val) (localStorage w) of
        Inl e \<Rightarrow> Rejected e w
      | Inr al \<Rightarrow> Fulfilled () (w\<lparr>localStorage := al\<rparr>))"

text \<open>\<^verbatim>\<open>store.get(key) || null\<close>: nothing stored and the empty string are both falsy.\<close>

definition StoreJsAdapter_read :: "string \<Rightarrow> browser \<Rightarrow> (string option, browser) settled" where
  "StoreJsAdapter_read key w =
     Fulfilled (case store_deserialize (Storage_getItem key (localStorage w)) of
                  None \<Rightarrow> None
                | Some v \<Rightarrow> if v = [] then None else Some v) w"

definition StoreJsAdapter_delete :: "string \<Rightarrow> browser \<Rightarrow> (unit, browser) settled" where
  "StoreJsAdapter_delete key w =
     Fulfilled () (w\<lparr>localStorage := Storage_removeItem key (localStorage w)\<rparr>)"

definition StoreJsAdapter_clear :: "browser \<Rightarrow> (unit, browser) settled" where
  "StoreJsAdapter_clear w = Fulfilled () (w\<lparr>localStorage := []\<rparr>)"

subsection \<open>PouchDBAdapter\<close>

text \<open>The \<^verbatim>\<open>try\<close> block of \<^verbatim>\<open>write\<close> covers the \<^verbatim>\<open>get\<close> and the \<^verbatim>\<open>put\<close> that follows it;
  the \<^verbatim>\<open>catch\<close> block creates the document on status 404 and rethrows anything else.\<close>

definition PouchDBAdapter_write :: "string \<Rightarrow> string \<Rightarrow> browser \<Rightarrow> (unit, browser) settled" where
  "PouchDBAdapter_write key val w =
     (let docs = pouch_benchmark w;
          tried = (case pouch_get key docs of
                     Inl e \<Rightarrow> Inl e
                   | Inr doc \<Rightarrow> pouch_put key (Some (doc_rev doc)) val False docs)
      in case tried of
           Inr docs' \<Rightarrow> Fulfilled () (w\<lparr>pouch_benchmark := docs'\<rparr>)
         | Inl e \<Rightarrow>
             (case statusOf e of
                Inl t \<Rightarrow> Rejected t w
              | Inr st \<Rightarrow>
                  if st = Some 404 then
                    (case pouch_put key None val False docs of
                       Inl e' \<Rightarrow> Rejected e' w
                     | Inr docs' \<Rightarrow> Fulfilled () (w\<lparr>pouch_benchmark := docs'\<rparr>))
                  else Rejected e w))"

definition PouchDBAdapter_read :: "string \<Rightarrow> browser \<Rightarrow> (string option, browser) settled" where
  "PouchDBAdapter_read key w =
     (case pouch_get key (pouch_benchmark w) of
        Inr doc \<Rightarrow> Fulfilled (Some (doc_value doc)) w
      | Inl e \<Rightarrow>
          (case statusOf e of
             Inl t \<Rightarrow> Rejected t w
           | Inr st \<Rightarrow> if st = Some 404 then Fulfilled None w else Rejected e w))"

definition PouchDBAdapter_delete :: "string \<Rightarrow> browser \<Rightarrow> (unit, browser) settled" where
  "PouchDBAdapter_delete key w =
     (let docs = pouch_benchmark w;
          tried = (case pouch_get key docs of
                     Inl e \<Rightarrow> Inl e
                   | Inr doc \<Rightarrow> pouch_put key (Some (doc_rev doc)) [] True docs)
      in case tried of
           Inr docs' \<Rightarrow> Fulfilled () (w\<lparr>pouch_benchmark := docs'\<rparr>)
         | Inl e \<Rightarrow>
             (case statusOf e of
                Inl t \<Rightarrow> Rejected t w
              | Inr st \<Rightarrow> if st \<noteq> Some 404 then Rejected e w else Fulfilled () w))"

definition PouchDBAdapter_clear :: "browser \<Rightarrow> (unit, browser) settled" where
  "PouchDBAdapter_clear w =
     (let allDocs = pouch_allDocs (pouch_benchmark w);
          deletions = allDocs
      in Fulfilled () (w\<lparr>pouch_benchmark := pouch_bulkDocs deletions (pouch_benchmark w)\<rparr>))"

subsection \<open>LocalForageAdapter\<close>

definition LocalForageAdapter_write :: "string \<Rightarrow> string \<Rightarrow> browser \<Rightarrow> (unit, browser) settled" where
  "LocalForageAdapter_write key val w =
     Fulfilled () (w\<lparr>localforage_benchmark := AList.update key val (localforage_benchmark w)\<rparr>)"

definition LocalForageAdapter_read :: "string \<Rightarrow> browser \<Rightarrow> (string option, browser) settled" where
  "LocalForageAdapter_read key w = Fulfilled (map_of (localforage_benchmark w) key) w"

definition LocalForageAdapter_delete :: "string \<Rightarrow> browser \<Rightarrow> (unit, browser) settled" where
  "LocalForageAdapter_delete key w =
     Fulfilled () (w\<lparr>localforage_benchmark := AList.delete key (localforage_benchmark w)\<rparr>)"

definition LocalForageAdapter_clear :: "browser \<Rightarrow> (unit, browser) settled" where
  "LocalForageAdapter_clear w = Fulfilled () (w\<lparr>localforage_benchmark := []\<rparr>)"

subsection \<open>OPFSAdapter\<close>

definition getRoot :: "browser \<Rightarrow> js_error + area" where
  "getRoot w =
     (case opfsRoot w of
        None \<Rightarrow> Inl (JsError (Some ''OPFS not supported'') None)
      | Some dir \<Rightarrow> Inr dir)"

text \<open>\<^verbatim>\<open>getFileHandle(key, { create: true })\<close> creates the file when it is missing; the
  writable replaces its content when it is closed.\<close>

definition OPFSAdapter_write :: "string \<Rightarrow> string \<Rightarrow> browser \<Rightarrow> (unit, browser) settled" where
  "OPFSAdapter_write key val w =
     (case getRoot w of
        Inl e \<Rightarrow> Rejected e w
      | Inr dir \<Rightarrow>
          if \<not> validFileName key then Rejected (TypeError ''Name is not allowed.'') w
          else Fulfilled () (w\<lparr>opfsRoot := Some (AList.update key val dir)\<rparr>))"

text \<open>The \<^verbatim>\<open>try\<close> block of \<^verbatim>\<open>read\<close> holds the call of \<^verbatim>\<open>getRoot\<close> too, and the
  \<^verbatim>\<open>catch\<close> block answers \<^verbatim>\<open>null\<close> to every error.\<close>

definition OPFSAdapter_read :: "string \<Rightarrow> browser \<Rightarrow> (string option, browser) settled" where
  "OPFSAdapter_read key w =
     (case getRoot w of
        Inl e \<Rightarrow> Fulfilled None w
      | Inr dir \<Rightarrow>
          (case getFileHandle key dir of
             Inl e \<Rightarrow> Fulfilled None w
           | Inr bytes \<Rightarrow> Fulfilled (Some (utf8Decode bytes)) w))"

definition OPFSAdapter_delete :: "string \<Rightarrow> browser \<Rightarrow> (unit, browser) settled" where
  "OPFSAdapter_delete key w =
     (case getRoot w of
        Inl e \<Rightarrow> Rejected e w
      | Inr dir \<Rightarrow>
          (case removeEntry key dir of
             Inl e \<Rightarrow> Rejected e w
           | Inr dir' \<Rightarrow> Fulfilled () (w\<lparr>opfsRoot := Some dir'\<rparr>)))"

text \<open>The loop of \<^verbatim>\<open>clear\<close> over \<^verbatim>\<open>root.keys()\<close>.\<close>

fun OPFSAdapter_clear_loop :: "string list \<Rightarrow> area \<Rightarrow> js_error option \<times> area" where
  "OPFSAdapter_clear_loop [] dir = (None, dir)"
| "OPFSAdapter_clear_loop (n # ns) dir =
     (case removeEntry n dir of
        Inl e \<Rightarrow> (Some e, dir)
      | Inr dir' \<Rightarrow> OPFSAdapter_clear_loop ns dir')"

definition OPFSAdapter_clear :: "browser \<Rightarrow> (unit, browser) settled" where
  "OPFSAdapter_clear w =
     (case getRoot w of
        Inl e \<Rightarrow> Rejected e w
      | Inr dir \<Rightarrow>
          (case OPFSAdapter_clear_loop (map fst dir) dir of
             (Some e, dir') \<Rightarrow> Rejected e (w\<lparr>opfsRoot := Some dir'\<rparr>)
           | (None, dir') \<Rightarrow> Fulfilled () (w\<lparr>opfsRoot := Some dir'\<rparr>)))"

subsection \<open>The ten adapters of the application\<close>

definition LocalStorageAdapter :: "browser StorageAdapter" where
  "LocalStorageAdapter =
     \<lparr>name = ''localStorage'', write = LocalStorageAdapter_write,
      read = LocalStorageAdapter_read, delete = LocalStorageAdapter_delete,
      clear = LocalStorageAdapter_clear\<rparr>"

definition SessionStorageAdapter :: "browser StorageAdapter" where
  "SessionStorageAdapter =
     \<lparr>name = ''sessionStorage'', write = SessionStorageAdapter_write,
      read = SessionStorageAdapter_read, delete = SessionStorageAdapter_delete,
      clear = SessionStorageAdapter_clear\<rparr>"

definition IndexedDBAdapter :: "browser StorageAdapter" where
  "IndexedDBAdapter =
     \<lparr>name = ''IndexedDB'', write = IndexedDBAdapter_write,
      read = IndexedDBAdapter_read, delete = IndexedDBAdapter_delete,
      clear = IndexedDBAdapter_clear\<rparr>"

definition CacheStorageAdapter :: "browser StorageAdapter" where
  "CacheStorageAdapter =
     \<lparr>name = ''Cache Storage'', write = CacheStorageAdapter_write,
      read = CacheStorageAdapter_read, delete = CacheStorageAdapter_delete,
      clear = CacheStorageAdapter_clear\<rparr>"

definition CookieAdapter :: "browser StorageAdapter" where
  "CookieAdapter =
     \<lparr>name = ''Cookies'', write = CookieAdapter_write,
      read = CookieAdapter_read, delete = CookieAdapter_delete,
      clear = CookieAdapter_clear\<rparr>"

definition DexieAdapter :: "browser StorageAdapter" where
  "DexieAdapter =
     \<lparr>name = ''Dexie.js'', write = DexieAdapter_write,
      read = DexieAdapter_read, delete = DexieAdapter_delete,
      clear = DexieAdapter_clear\<rparr>"

definition StoreJsAdapter :: "browser StorageAdapter" where
  "StoreJsAdapter =
     \<lparr>name = ''store.js'', write = StoreJsAdapter_write,
      read = StoreJsAdapter_read, delete = StoreJsAdapter_delete,
      clear = StoreJsAdapter_clear\<rparr>"

definition PouchDBAdapter :: "browser StorageAdapter" where
  "PouchDBAdapter =
     \<lparr>name = ''PouchDB'', write = PouchDBAdapter_write,
      read = PouchDBAdapter_read, delete = PouchDBAdapter_delete,
      clear = PouchDBAdapter_clear\<rparr>"

definition LocalForageAdapter :: "browser StorageAdapter" where
  "LocalForageAdapter =
     \<lparr>name = ''localForage'', write = LocalForageAdapter_write,
      read = LocalForageAdapter_read, delete = LocalForageAdapter_delete,
      clear = LocalForageAdapter_clear\<rparr>"

definition OPFSAdapter :: "browser StorageAdapter" where
  "OPFSAdapter =
     \<lparr>name = ''OPFS'', write = OPFSAdapter_write,
      read = OPFSAdapter_read, delete = OPFSAdapter_delete,
      clear = OPFSAdapter_clear\<rparr>"

text \<open>The array \<^verbatim>\<open>adapters\<close> of App.tsx.\<close>

definition adapters :: "browser StorageAdapter list" where
  "adapters =
     [LocalStorageAdapter, SessionStorageAdapter, IndexedDBAdapter, CacheStorageAdapter,
      CookieAdapter, DexieAdapter, StoreJsAdapter, PouchDBAdapter, LocalForageAdapter,
      OPFSAdapter]"

section \<open>Worlds and adapters to run the program on\<close>

text \<open>
  A browser with nothing stored, a quota of 5 MiB for a Web Storage area, cookies of up
  to 4096 bytes and no further ground to refuse one, an origin private file system, and a
  URL parser that resolves a key against \<^verbatim>\<open>https://bench.example/\<close>.
\<close>

definition freshBrowser :: browser where
  "freshBrowser =
     \<lparr>clock = 0, storageQuota = 5242880, localStorage = [], sessionStorage = [],
      benchmark_db = None, parseURL = (\<lambda>k. Some (''https://bench.example/'' @ k)),
      isHttp = (\<lambda>u. True), benchmark_cache = None, cookieLimit = 4096,
      cookieRefused = (\<lambda>n v. False), cookieJar = [],
      dexie_benchmark = [], pouch_benchmark = [], localforage_benchmark = [],
      opfsRoot = Some []\<rparr>"

text \<open>An adapter whose every write takes \<open>writeMs\<close> and every read \<open>readMs\<close> on the clock,
  whether it succeeds or fails.\<close>

definition elapse :: "real \<Rightarrow> ('a, browser) settled \<Rightarrow> ('a, browser) settled" where
  "elapse ms r =
     (case r of
        Fulfilled x w \<Rightarrow> Fulfilled x (w\<lparr>clock := clock w + ms\<rparr>)
      | Rejected e w \<Rightarrow> Rejected e (w\<lparr>clock := clock w + ms\<rparr>))"

definition timed :: "real \<Rightarrow> real \<Rightarrow> browser StorageAdapter \<Rightarrow> browser StorageAdapter" where
  "timed writeMs readMs A =
     A\<lparr>write := (\<lambda>k v w. elapse writeMs (write A k v w)),
       read := (\<lambda>k w. elapse readMs (read A k w))\<rparr>"

subsection \<open>Well-formed stores\<close>

text \<open>
  The characters \<^verbatim>\<open>encodeURIComponent\<close> writes: the unreserved ones and the percent sign.
\<close>

definition cookieOctet :: "char \<Rightarrow> bool" where
  "cookieOctet c \<longleftrightarrow> uriUnreserved c \<or> c = CHR ''%''"

text \<open>
  A cookie as the jar holds it after parsing: a name that is not empty, has no \<^verbatim>\<open>;\<close> and
  no \<^verbatim>\<open>=\<close> and no white space at its ends, a value without \<^verbatim>\<open>;\<close>, and both within the
  jar's limit. \<open>cookieText\<close> is what \<^verbatim>\<open>document.cookie\<close> shows of it.
\<close>

definition cookie_ok :: "nat \<Rightarrow> string \<times> string \<Rightarrow> bool" where
  "cookie_ok limit c \<longleftrightarrow>
     (case c of (n, v) \<Rightarrow>
        n \<noteq> [] \<and> CHR '';'' \<notin> set n \<and> CHR ''='' \<notin> set n \<and>
        \<not> isWhiteSpace (hd n) \<and> \<not> isWhiteSpace (last n) \<and>
        CHR '';'' \<notin> set v \<and> length n + length v \<le> limit)"

definition jar_ok :: "browser \<Rightarrow> bool" where
  "jar_ok w \<longleftrightarrow> list_all (cookie_ok (cookieLimit w)) (cookieJar w)"

definition cookieText :: "string \<times> string \<Rightarrow> string" where
  "cookieText c = (case c of (n, v) \<Rightarrow> if n = [] then v else n @ ''='' @ v)"

text \<open>What one round of the loop of \<^verbatim>\<open>CookieAdapter.clear\<close> does to the jar, for the cookie
  \<open>c\<close> it found: the name, encoded once more, is the name it deletes.\<close>

definition clearStep :: "browser \<Rightarrow> string \<times> string \<Rightarrow> area \<Rightarrow> area" where
  "clearStep w c jar =
     (if jarAccepts w (encodeURIComponent (fst c)) []
      then AList.delete (encodeURIComponent (fst c)) jar else jar)"

text \<open>PouchDB's documents as \<^verbatim>\<open>put\<close> admits them: one entry for an id, and ids that are
  neither empty nor start with an underscore.\<close>

definition pouch_ok :: "browser \<Rightarrow> bool" where
  "pouch_ok w \<longleftrightarrow>
     distinct (map fst (pouch_benchmark w)) \<and>
     (\<forall>i \<in> fst ` set (pouch_benchmark w). i \<noteq> [] \<and> hd i \<noteq> CHR ''_'')"

text \<open>Two states of the browser that differ at most in the store of the adapter named
  \<open>n\<close> (localStorage is the store of the adapters localStorage and store.js).\<close>

definition same_elsewhere :: "string \<Rightarrow> browser \<Rightarrow> browser \<Rightarrow> bool" where
  "same_elsewhere n w w' \<longleftrightarrow>
     storageQuota w' = storageQuota w \<and> parseURL w' = parseURL w \<and> isHttp w' = isHttp w \<and>
     cookieLimit w' = cookieLimit w \<and> cookieRefused w' = cookieRefused w \<and>
     (n \<noteq> ''localStorage'' \<and> n \<noteq> ''store.js'' \<longrightarrow> localStorage w' = localStorage w) \<and>
     (n \<noteq> ''sessionStorage'' \<longrightarrow> sessionStorage w' = sessionStorage w) \<and>
     (n \<noteq> ''IndexedDB'' \<longrightarrow> benchmark_db w' = benchmark_db w) \<and>
     (n \<noteq> ''Cache Storage'' \<longrightarrow> benchmark_cache w' = benchmark_cache w) \<and>
     (n \<noteq> ''Cookies'' \<longrightarrow> cookieJar w' = cookieJar w) \<and>
     (n \<noteq> ''Dexie.js'' \<longrightarrow> dexie_benchmark w' = dexie_benchmark w) \<and>
     (n \<noteq> ''PouchDB'' \<longrightarrow> pouch_benchmark w' = pouch_benchmark w) \<and>
     (n \<noteq> ''localForage'' \<longrightarrow> localforage_benchmark w' = localforage_benchmark w) \<and>
     (n \<noteq> ''OPFS'' \<longrightarrow> opfsRoot w' = opfsRoot w)"

text \<open>A suite of two payloads, and a browser whose Web Storage quota the first of them
  exceeds.\<close>

definition twoPayloads :: BenchmarkSuite where
  "twoPayloads =
     \<lparr>suite_name = ''Two payloads'',
      payloads = [\<lparr>label = ''128 B'', payload_size = 128\<rparr>, \<lparr>label = ''16 B'', payload_size = 16\<rparr>]\<rparr>"

definition smallQuota :: browser where
  "smallQuota = freshBrowser\<lparr>storageQuota := 100\<rparr>"

text \<open>A suite whose second payload is longer than the longest string of any of the three
  engines.\<close>

definition tooLong :: BenchmarkSuite where
  "tooLong =
     \<lparr>suite_name = ''Too long'',
      payloads = [\<lparr>label = ''16 B'', payload_size = 16\<rparr>,
                  \<lparr>label = ''4 GB'', payload_size = 4 * 1024 * 1024 * 1024\<rparr>]\<rparr>"

text \<open>An adapter over a backend whose \<^verbatim>\<open>write\<close> rejects with \<^verbatim>\<open>undefined\<close>, as a promise does
  that is rejected without a reason.\<close>

definition rejectsWithoutReason :: "browser StorageAdapter" where
  "rejectsWithoutReason =
     \<lparr>name = ''No reason'', write = (\<lambda>k v w. Rejected Nullish w),
      read = (\<lambda>k w. Fulfilled None w), delete = (\<lambda>k w. Fulfilled () w),
      clear = (\<lambda>w. Fulfilled () w)\<rparr>"

section \<open>Properties of the measurement engine\<close>

subsection \<open>The loops\<close>

lemma furtherTrials_length:
  "furtherTrials rt A key data n w = Fulfilled ts w' \<Longrightarrow> length ts = n"
  by (induction n arbitrary: w ts) (auto split: settled.splits)

lemma repeatRuns_furtherTrials:
  "repeatRuns rt A key data runs target wa ra w =
     (case furtherTrials rt A key data (target - runs) w of
        Rejected e w' \<Rightarrow> Rejected e w'
      | Fulfilled ts w' \<Rightarrow>
          Fulfilled (wa + sum_list (map fst ts), ra + sum_list (map snd ts), max runs target) w')"
proof (induction rt A key data runs target wa ra w rule: repeatRuns.induct)
  case (1 rt A key data runs target wa ra w)
  show ?case
  proof (cases "runs < target")
    case False
    then show ?thesis
      by (subst repeatRuns.simps) (simp add: max_def)
  next
    case True
    then obtain d where d: "target - runs = Suc d" and d': "target - (runs + 1) = d"
      by (cases "target - runs") auto
    show ?thesis
    proof (cases "runOnce rt A key data (wait rt 50 w)")
      case (Rejected e w')
      with True d show ?thesis
        by (subst repeatRuns.simps) simp
    next
      case (Fulfilled t w')
      have m: "max (runs + 1) target = max runs target"
        using True by simp
      show ?thesis
        using True d Fulfilled "1.IH" [OF True Fulfilled] d' m
        by (subst repeatRuns.simps) (simp add: algebra_simps split: settled.splits)
    qed
  qed
qed

lemma tryBlock_fields:
  assumes "tryBlock rt A S p key data w = Fulfilled r w'"
  shows "adapterName r = name A \<and> suiteName r = suite_name S \<and> payloadSize r = label p \<and>
         error r = None \<and>
         blockingTime r = (if isSync (name A) then writeTime r + readTime r else 1 / 2)"
  using assms
  by (auto simp: tryBlock_def Let_def split: settled.splits prod.splits)

lemma catchBlock_fields:
  assumes "catchBlock A S p e = Inr r"
  shows "adapterName r = name A \<and> suiteName r = suite_name S \<and> payloadSize r = label p \<and>
         error r \<noteq> None \<and> writeTime r = 0 \<and> readTime r = 0 \<and> blockingTime r = 0"
  using assms by (auto simp: catchBlock_def split: js_error.splits)

lemma catchBlock_JsError:
  "catchBlock A S p (JsError msg st) =
     Inr \<lparr>adapterName = name A, suiteName = suite_name S, payloadSize = label p,
          writeTime = 0, readTime = 0, blockingTime = 0,
          error = Some (case msg of
                          None \<Rightarrow> ''Quota exceeded or unknown error''
                        | Some m \<Rightarrow> if m = [] then ''Quota exceeded or unknown error'' else m)\<rparr>"
  by (simp add: catchBlock_def)

lemma catchBlock_Nullish: "catchBlock A S p Nullish = Inl nullishProperty"
  by (simp add: catchBlock_def)

text \<open>One round of the loop, by what becomes of the payload.\<close>

lemma forPayloads_Cons_cases:
  obtains
    (no_payload) e where "generatePayload (maxStringLength rt) (payload_size p) = Inl e"
      "forPayloads rt A S (p # ps) acc w = Rejected e w"
  | (ok) data r w' where "generatePayload (maxStringLength rt) (payload_size p) = Inr data"
      "tryBlock rt A S p (''bench_'' @ label p) data w = Fulfilled r w'"
      "forPayloads rt A S (p # ps) acc w = forPayloads rt A S ps (acc @ [r]) w'"
  | (caught) data e r w' where "generatePayload (maxStringLength rt) (payload_size p) = Inr data"
      "tryBlock rt A S p (''bench_'' @ label p) data w = Rejected e w'"
      "catchBlock A S p e = Inr r"
      "forPayloads rt A S (p # ps) acc w = forPayloads rt A S ps (acc @ [r]) w'"
  | (catch_throws) data e e' w' where "generatePayload (maxStringLength rt) (payload_size p) = Inr data"
      "tryBlock rt A S p (''bench_'' @ label p) data w = Rejected e w'"
      "catchBlock A S p e = Inl e'"
      "forPayloads rt A S (p # ps) acc w = Rejected e' w'"
proof (cases "generatePayload (maxStringLength rt) (payload_size p)")
  case (Inl e)
  then show ?thesis using no_payload by simp
next
  case (Inr data)
  show ?thesis
  proof (cases "tryBlock rt A S p (''bench_'' @ label p) data w")
    case (Fulfilled r w')
    then show ?thesis using Inr ok by simp
  next
    case (Rejected e w')
    then show ?thesis
      using Inr caught [of data e w'] catch_throws [of data e w']
      by (cases "catchBlock A S p e") simp_all
  qed
qed

lemma forPayloads_results:
  "forPayloads rt A S ps acc w = Fulfilled out w' \<Longrightarrow>
     \<exists>rs. out = acc @ rs \<and>
        map adapterName rs = replicate (length ps) (name A) \<and>
        map suiteName rs = replicate (length ps) (suite_name S) \<and>
        map payloadSize rs = map label ps"
proof (induction ps arbitrary: acc w)
  case Nil
  then show ?case by simp
next
  case (Cons p ps)
  show ?case
  proof (cases rule: forPayloads_Cons_cases [of rt p A S ps acc w])
    case (no_payload e)
    then show ?thesis using Cons.prems by simp
  next
    case (ok data r w1)
    from Cons.IH [of "acc @ [r]" w1] ok(3) Cons.prems obtain rs where
      rs: "out = (acc @ [r]) @ rs"
        "map adapterName rs = replicate (length ps) (name A)"
        "map suiteName rs = replicate (length ps) (suite_name S)"
        "map payloadSize rs = map label ps"
      by auto
    show ?thesis
      using rs tryBlock_fields [OF ok(2)]
      by (intro exI [of _ "r # rs"]) simp
  next
    case (caught data e r w1)
    from Cons.IH [of "acc @ [r]" w1] caught(4) Cons.prems obtain rs where
      rs: "out = (acc @ [r]) @ rs"
        "map adapterName rs = replicate (length ps) (name A)"
        "map suiteName rs = replicate (length ps) (suite_name S)"
        "map payloadSize rs = map label ps"
      by auto
    show ?thesis
      using rs catchBlock_fields [OF caught(3)]
      by (intro exI [of _ "r # rs"]) simp
  next
    case (catch_throws data e e' w1)
    then show ?thesis using Cons.prems by simp
  qed
qed

text \<open>What \<^verbatim>\<open>runBenchmark\<close> returns when it returns: one result for each payload, in their
  order, with the names of the adapter and of the suite.\<close>

lemma runBenchmark_results:
  assumes "runBenchmark rt A S w = Fulfilled rs w'"
  shows "length rs = length (payloads S) \<and>
         map adapterName rs = replicate (length (payloads S)) (name A) \<and>
         map suiteName rs = replicate (length (payloads S)) (suite_name S) \<and>
         map payloadSize rs = map label (payloads S)"
proof -
  from forPayloads_results [of rt A S "payloads S" "[]" w rs w'] assms
  have rs: "map adapterName rs = replicate (length (payloads S)) (name A)"
      "map suiteName rs = replicate (length (payloads S)) (suite_name S)"
      "map payloadSize rs = map label (payloads S)"
    by (auto simp: runBenchmark_def)
  have "length rs = length (payloads S)"
    using rs(3) by (metis length_map)
  then show ?thesis
    using rs by simp
qed

text \<open>The loop over a list of payloads that is cut in two.\<close>

lemma forPayloads_append:
  "forPayloads rt A S (ps @ qs) acc w =
     (case forPayloads rt A S ps acc w of
        Fulfilled out w' \<Rightarrow> forPayloads rt A S qs out w'
      | Rejected e w' \<Rightarrow> Rejected e w')"
proof (induction ps arbitrary: acc w)
  case Nil
  show ?case by simp
next
  case (Cons p ps)
  show ?case
    by (simp add: Cons.IH Let_def split: sum.splits settled.splits)
qed

text \<open>Of the suite the loop uses the name only.\<close>

lemma tryBlock_suite_name:
  "suite_name S = suite_name T \<Longrightarrow> tryBlock rt A S p key data w = tryBlock rt A T p key data w"
  by (auto simp: tryBlock_def Let_def split: settled.splits prod.splits)

lemma catchBlock_suite_name:
  "suite_name S = suite_name T \<Longrightarrow> catchBlock A S p e = catchBlock A T p e"
  by (simp add: catchBlock_def split: js_error.splits)

lemma forPayloads_suite_name:
  "suite_name S = suite_name T \<Longrightarrow> forPayloads rt A S ps acc w = forPayloads rt A T ps acc w"
proof (induction ps arbitrary: acc w)
  case Nil
  show ?case by simp
next
  case (Cons p ps)
  show ?case
    using Cons.IH [OF Cons.prems]
    by (simp add: tryBlock_suite_name [OF Cons.prems] catchBlock_suite_name [OF Cons.prems]
          Let_def split: sum.splits settled.splits)
qed

lemma runBenchmark_payloads:
  "runBenchmark rt A (S\<lparr>payloads := ps\<rparr>) w = forPayloads rt A S ps [] w"
  using forPayloads_suite_name [of "S\<lparr>payloads := ps\<rparr>" S rt A ps "[]" w]
  by (simp add: runBenchmark_def)

lemma runOnce_Rejected_iff:
  "runOnce rt A key data w = Rejected e w' \<longleftrightarrow>
     clear A w = Rejected e w' \<or>
     (\<exists>u w1. clear A w = Fulfilled u w1 \<and>
        (write A key data w1 = Rejected e w' \<or>
         (\<exists>u' w2. write A key data w1 = Fulfilled u' w2 \<and> read A key w2 = Rejected e w')))"
  by (auto simp: runOnce_def Let_def split: settled.splits)

lemma tryBlock_Rejected_iff:
  "tryBlock rt A S p key data w = Rejected e w' \<longleftrightarrow>
     runOnce rt A key data w = Rejected e w' \<or>
     (\<exists>t1 r1 w1.
        runOnce rt A key data w = Fulfilled (t1, r1) w1 \<and>
        furtherTrials rt A key data (trialsFor (t1 + r1) - 1) w1 = Rejected e w')"
  by (auto simp: tryBlock_def Let_def repeatRuns_furtherTrials trialsFor_def
           split: settled.splits prod.splits)

lemma runOnce_nonneg:
  assumes "clock_monotone rt A" "runOnce rt A key data w = Fulfilled (a, b) w'"
  shows "0 \<le> a \<and> 0 \<le> b"
proof -
  from assms(2) obtain u w1 u' w2 x where
    c: "clear A w = Fulfilled u w1" and wr: "write A key data w1 = Fulfilled u' w2"
    and rd: "read A key w2 = Fulfilled x w'"
    and a: "a = performance_now rt w2 - performance_now rt w1"
    and b: "b = performance_now rt w' - performance_now rt w2"
    by (auto simp: runOnce_def Let_def split: settled.splits)
  have "performance_now rt w1 \<le> performance_now rt (world_of (write A key data w1))"
    using assms(1) by (simp add: clock_monotone_def)
  moreover have "performance_now rt w2 \<le> performance_now rt (world_of (read A key w2))"
    using assms(1) by (simp add: clock_monotone_def)
  ultimately show ?thesis
    using wr rd a b by simp
qed

lemma furtherTrials_nonneg:
  assumes "clock_monotone rt A"
  shows "furtherTrials rt A key data n w = Fulfilled ts w' \<Longrightarrow>
         0 \<le> sum_list (map fst ts) \<and> 0 \<le> sum_list (map snd ts)"
proof (induction n arbitrary: w ts)
  case 0
  then show ?case by simp
next
  case (Suc n)
  from Suc.prems obtain a b w1 ts' where
    t: "runOnce rt A key data (wait rt 50 w) = Fulfilled (a, b) w1"
    and r: "furtherTrials rt A key data n w1 = Fulfilled ts' w'" and ts: "ts = (a, b) # ts'"
    by (auto split: settled.splits)
  show ?case
    using runOnce_nonneg [OF assms t] Suc.IH [OF r] ts by simp
qed

lemma tryBlock_Fulfilled_trials:
  assumes "tryBlock rt A S p key data w = Fulfilled r w'"
  shows "\<exists>t1 r1 w1 ts.
           runOnce rt A key data w = Fulfilled (t1, r1) w1 \<and>
           furtherTrials rt A key data (trialsFor (t1 + r1) - 1) w1 = Fulfilled ts w' \<and>
           writeTime r = (t1 + sum_list (map fst ts)) / real (trialsFor (t1 + r1)) \<and>
           readTime r = (r1 + sum_list (map snd ts)) / real (trialsFor (t1 + r1))"
proof -
  obtain t1 r1 w1 where f: "runOnce rt A key data w = Fulfilled (t1, r1) w1"
    using assms by (cases "runOnce rt A key data w") (auto simp: tryBlock_def Let_def)
  have m: "max 1 (trialsFor (t1 + r1)) = trialsFor (t1 + r1)"
    by (simp add: trialsFor_def)
  obtain ts where ft: "furtherTrials rt A key data (trialsFor (t1 + r1) - 1) w1 = Fulfilled ts w'"
    and r: "r = \<lparr>adapterName = name A, suiteName = suite_name S, payloadSize = label p,
                 writeTime = (t1 + sum_list (map fst ts)) / real (trialsFor (t1 + r1)),
                 readTime = (r1 + sum_list (map snd ts)) / real (trialsFor (t1 + r1)),
                 blockingTime = (if isSync (name A)
                    then (t1 + sum_list (map fst ts)) / real (trialsFor (t1 + r1)) +
                         (r1 + sum_list (map snd ts)) / real (trialsFor (t1 + r1))
                    else 1 / 2),
                 error = None\<rparr>"
    using assms f m
    by (cases "furtherTrials rt A key data (trialsFor (t1 + r1) - 1) w1")
       (auto simp: tryBlock_def Let_def repeatRuns_furtherTrials trialsFor_def [symmetric])
  show ?thesis
    using f ft r by auto
qed

lemma tryBlock_nonneg:
  assumes "clock_monotone rt A" "tryBlock rt A S p key data w = Fulfilled r w'"
  shows "0 \<le> writeTime r \<and> 0 \<le> readTime r"
proof -
  from tryBlock_Fulfilled_trials [OF assms(2)] obtain t1 r1 w1 ts where
    f: "runOnce rt A key data w = Fulfilled (t1, r1) w1"
    and m: "furtherTrials rt A key data (trialsFor (t1 + r1) - 1) w1 = Fulfilled ts w'"
    and wt: "writeTime r = (t1 + sum_list (map fst ts)) / real (trialsFor (t1 + r1))"
    and rd: "readTime r = (r1 + sum_list (map snd ts)) / real (trialsFor (t1 + r1))"
    by blast
  show ?thesis
    using runOnce_nonneg [OF assms(1) f] furtherTrials_nonneg [OF assms(1) m] wt rd
    by simp
qed

lemma forPayloads_all:
  assumes ok: "\<And>p key data w0 w' r. tryBlock rt A S p key data w0 = Fulfilled r w' \<Longrightarrow> P r"
    and err: "\<And>p e r. catchBlock A S p e = Inr r \<Longrightarrow> P r"
  shows "list_all P acc \<Longrightarrow> forPayloads rt A S ps acc w = Fulfilled out w' \<Longrightarrow> list_all P out"
proof (induction ps arbitrary: acc w)
  case Nil
  then show ?case by simp
next
  case (Cons p ps)
  show ?case
  proof (cases rule: forPayloads_Cons_cases [of rt p A S ps acc w])
    case (no_payload e)
    then show ?thesis using Cons.prems by simp
  next
    case (ok data r w1)
    have "list_all P (acc @ [r])"
      using Cons.prems(1) assms(1) [OF ok(2)] by simp
    then show ?thesis
      using Cons.IH [of "acc @ [r]" w1] ok(3) Cons.prems(2) by simp
  next
    case (caught data e r w1)
    have "list_all P (acc @ [r])"
      using Cons.prems(1) err [OF caught(3)] by simp
    then show ?thesis
      using Cons.IH [of "acc @ [r]" w1] caught(4) Cons.prems(2) by simp
  next
    case (catch_throws data e e' w1)
    then show ?thesis using Cons.prems by simp
  qed
qed

lemma runBenchmark_all:
  assumes "\<And>p key data w0 w' r. tryBlock rt A S p key data w0 = Fulfilled r w' \<Longrightarrow> P r"
    and "\<And>p e r. catchBlock A S p e = Inr r \<Longrightarrow> P r"
    and "runBenchmark rt A S w = Fulfilled rs w'"
  shows "\<forall>r \<in> set rs. P r"
  using forPayloads_all [of rt A S P "[]" "payloads S" w rs w', OF assms(1,2)] assms(3)
  by (simp add: runBenchmark_def list_all_iff)

subsection \<open>Running the engine on the sample adapters\<close>

lemma generatePayload_in_range:
  "0 \<le> n \<Longrightarrow> n \<le> int limit \<Longrightarrow> generatePayload limit n = Inr (replicate (nat n) CHR ''a'')"
  by (simp add: generatePayload_def)

lemmas LocalStorageAdapter_simps =
  LocalStorageAdapter_def LocalStorageAdapter_write_def LocalStorageAdapter_read_def
  LocalStorageAdapter_clear_def Storage_setItem_def Storage_getItem_def area_size_def

lemmas IndexedDBAdapter_simps =
  IndexedDBAdapter_def IndexedDBAdapter_write_def IndexedDBAdapter_read_def
  IndexedDBAdapter_clear_def getDB_def

lemmas engine_simps =
  runBenchmark_def generatePayload_def tryBlock_def runOnce_def repeatRuns_furtherTrials
  catchBlock_def isSync_def timed_def elapse_def browser_runtime_def Let_def

lemma timed_clock_monotone:
  assumes "0 \<le> a" "0 \<le> b"
    and "\<And>k v w. clock (world_of (write A k v w)) = clock w"
    and "\<And>k w. clock (world_of (read A k w)) = clock w"
  shows "clock_monotone browser_runtime (timed a b A)"
  using assms
  by (auto simp: clock_monotone_def timed_def elapse_def browser_runtime_def split: settled.splits)
     (metis add_increasing2 order_refl world_of.simps)+

lemma LocalStorageAdapter_clock:
  "clock (world_of (write LocalStorageAdapter k v w)) = clock w"
  "clock (world_of (read LocalStorageAdapter k w)) = clock w"
  by (simp_all add: LocalStorageAdapter_def LocalStorageAdapter_write_def
        LocalStorageAdapter_read_def split: sum.splits)

lemma twoPayloads_run:
  "runBenchmark browser_runtime (timed 2 3 LocalStorageAdapter) twoPayloads smallQuota =
     Fulfilled
       [\<lparr>adapterName = ''localStorage'', suiteName = ''Two payloads'', payloadSize = ''128 B'',
         writeTime = 0, readTime = 0, blockingTime = 0,
         error = Some ''The quota has been exceeded.''\<rparr>,
        \<lparr>adapterName = ''localStorage'', suiteName = ''Two payloads'', payloadSize = ''16 B'',
         writeTime = 2, readTime = 3, blockingTime = 5, error = None\<rparr>]
       (smallQuota\<lparr>clock := 117, localStorage := [(''bench_16 B'', replicate 16 CHR ''a'')]\<rparr>)"
  by (simp add: engine_simps LocalStorageAdapter_simps freshBrowser_def twoPayloads_def
        smallQuota_def QuotaExceededError_def numeral_2_eq_2)

lemma twoPayloads_run_IndexedDB:
  "runBenchmark browser_runtime (timed 2 3 IndexedDBAdapter) twoPayloads smallQuota =
     Fulfilled
       [\<lparr>adapterName = ''IndexedDB'', suiteName = ''Two payloads'', payloadSize = ''128 B'',
         writeTime = 2, readTime = 3, blockingTime = 1 / 2, error = None\<rparr>,
        \<lparr>adapterName = ''IndexedDB'', suiteName = ''Two payloads'', payloadSize = ''16 B'',
         writeTime = 2, readTime = 3, blockingTime = 1 / 2, error = None\<rparr>]
       (smallQuota\<lparr>clock := 230, benchmark_db := Some [(''bench_16 B'', replicate 16 CHR ''a'')]\<rparr>)"
  by (simp add: engine_simps IndexedDBAdapter_simps freshBrowser_def twoPayloads_def
        smallQuota_def numeral_2_eq_2)


text \<open>
  A rejection with a value that has properties is recorded, and the loop goes on: where an
  operation of the adapter rejects the first trial or a later one of payload \<open>p\<close> with such
  a value, the run pushes the result with the value's message (the fallback text where the
  message is missing or empty) and with all times zero, and goes on with the payloads that
  follow from the world the failing operation left.
\<close>

lemma rejection_with_object_recorded:
  assumes before: "runBenchmark rt A (S\<lparr>payloads := ps\<rparr>) w = Fulfilled acc w0"
    and payload: "generatePayload (maxStringLength rt) (payload_size p) = Inr data"
    and fails: "runOnce rt A (''bench_'' @ label p) data w0 = Rejected (JsError msg st) w' \<or>
       (\<exists>t1 r1 w1.
          runOnce rt A (''bench_'' @ label p) data w0 = Fulfilled (t1, r1) w1 \<and>
          furtherTrials rt A (''bench_'' @ label p) data
            ((if t1 + r1 < 10 then 3 else if t1 + r1 < 50 then 2 else 1) - 1) w1
              = Rejected (JsError msg st) w')"
  shows "runBenchmark rt A (S\<lparr>payloads := ps @ p # qs\<rparr>) w =
         forPayloads rt A S qs
           (acc @ [\<lparr>adapterName = name A, suiteName = suite_name S, payloadSize = label p,
                    writeTime = 0, readTime = 0, blockingTime = 0,
                    error = Some (case msg of
                                    None \<Rightarrow> ''Quota exceeded or unknown error''
                                  | Some m \<Rightarrow> if m = [] then ''Quota exceeded or unknown error''
                                              else m)\<rparr>]) w'"
proof -
  have "tryBlock rt A S p (''bench_'' @ label p) data w0 = Rejected (JsError msg st) w'"
    using fails unfolding tryBlock_Rejected_iff trialsFor_def by simp
  then show ?thesis
    using before payload
    by (simp add: runBenchmark_payloads forPayloads_append catchBlock_JsError)
qed

subsection \<open>The specified properties of the engine\<close>

text \<open>
  C1. \<^verbatim>\<open>runBenchmark\<close> does not return one result for each payload whether or not a payload
  fails. The suite \<open>tooLong\<close> has two payloads, of 16 bytes and of 4 GB. On localStorage
  (with 2 ms for a write and 3 ms for a read) the first payload is measured in three
  trials, which the clock shows; then \<^verbatim>\<open>generatePayload\<close> throws a RangeError for the second
  payload, outside the \<^verbatim>\<open>try\<close> block, and \<^verbatim>\<open>runBenchmark\<close> is rejected with it: the caller
  gets no result at all, neither an error result for the second payload nor the result
  of the first.
\<close>

theorem payload_generation_failure_loses_all_results:
  "runBenchmark browser_runtime (timed 2 3 LocalStorageAdapter) tooLong freshBrowser =
     Rejected (RangeError ''Invalid string length'')
       (freshBrowser\<lparr>clock := 115, localStorage := [(''bench_16 B'', replicate 16 CHR ''a'')]\<rparr>)"
  by (simp add: engine_simps LocalStorageAdapter_simps freshBrowser_def tooLong_def
        numeral_2_eq_2)

text \<open>
  C2. Let \<^verbatim>\<open>runBenchmark\<close> have returned the results \<open>acc\<close> for the payloads \<open>ps\<close> of a
  suite, and let \<open>p\<close> be the next payload, whose data can be made. Let its first trial
  take \<open>t1\<close> to write and \<open>r1\<close> to read, and let \<open>n\<close> be 3 where \<open>t1 + r1 < 10\<close>, 2 where
  \<open>10 \<le> t1 + r1 < 50\<close>, and 1 otherwise. If the \<open>n - 1\<close> further trials succeed, exactly \<open>n\<close>
  trials have run when \<^verbatim>\<open>runBenchmark\<close> is done with \<open>p\<close> (the world it ends in is the one
  after the last of them), and \<^verbatim>\<open>runBenchmark\<close> on the payloads up to \<open>p\<close> returns \<open>acc\<close>
  followed by a result without error that carries the arithmetic means of the \<open>n\<close> write
  times and of the \<open>n\<close> read times; whatever payloads follow \<open>p\<close> in the suite, the results
  of \<^verbatim>\<open>runBenchmark\<close> begin with these.
\<close>

theorem adaptive_repetition:
  assumes before: "runBenchmark rt A (S\<lparr>payloads := ps\<rparr>) w = Fulfilled acc w0"
    and payload: "generatePayload (maxStringLength rt) (payload_size p) = Inr data"
    and first: "runOnce rt A (''bench_'' @ label p) data w0 = Fulfilled (t1, r1) w1"
    and n: "n = (if t1 + r1 < 10 then 3 else if t1 + r1 < 50 then 2 else 1)"
    and rest: "furtherTrials rt A (''bench_'' @ label p) data (n - 1) w1 = Fulfilled ts w'"
  shows "length ((t1, r1) # ts) = n \<and>
         (\<exists>r. writeTime r = sum_list (map fst ((t1, r1) # ts)) / real n \<and>
              readTime r = sum_list (map snd ((t1, r1) # ts)) / real n \<and>
              error r = None \<and>
              runBenchmark rt A (S\<lparr>payloads := ps @ [p]\<rparr>) w = Fulfilled (acc @ [r]) w' \<and>
              (\<forall>qs rs wf. runBenchmark rt A (S\<lparr>payloads := ps @ p # qs\<rparr>) w = Fulfilled rs wf
                 \<longrightarrow> take (Suc (length ps)) rs = acc @ [r]))"
proof -
  have len: "length ts = n - 1"
    using rest by (rule furtherTrials_length)
  have n1: "1 \<le> n" "max 1 n = n"
    using n by auto
  have count: "length ((t1, r1) # ts) = n"
    using len n1 by simp
  have pre: "forPayloads rt A S ps [] w = Fulfilled acc w0"
    using before by (simp add: runBenchmark_payloads)
  from forPayloads_results [OF pre] obtain rs0 where
    "acc = [] @ rs0" and "map payloadSize rs0 = map label ps"
    by blast
  then have lacc: "length acc = length ps"
    using map_eq_imp_length_eq [of payloadSize rs0 label ps] by simp
  obtain r where tb: "tryBlock rt A S p (''bench_'' @ label p) data w0 = Fulfilled r w'"
    and wt: "writeTime r = sum_list (map fst ((t1, r1) # ts)) / real n"
    and rd: "readTime r = sum_list (map snd ((t1, r1) # ts)) / real n"
    and er: "error r = None"
    using first rest n1 unfolding n
    by (simp add: tryBlock_def Let_def repeatRuns_furtherTrials)
  have upto: "runBenchmark rt A (S\<lparr>payloads := ps @ [p]\<rparr>) w = Fulfilled (acc @ [r]) w'"
    using pre payload tb by (simp add: runBenchmark_payloads forPayloads_append)
  have later: "take (Suc (length ps)) rs = acc @ [r]"
    if run: "runBenchmark rt A (S\<lparr>payloads := ps @ p # qs\<rparr>) w = Fulfilled rs wf"
    for qs rs wf
  proof -
    have "forPayloads rt A S qs (acc @ [r]) w' = Fulfilled rs wf"
      using run pre payload tb by (simp add: runBenchmark_payloads forPayloads_append)
    from forPayloads_results [OF this] obtain rs' where "rs = (acc @ [r]) @ rs'"
      by blast
    then show ?thesis
      using lacc by simp
  qed
  show ?thesis
    using count wt rd er upto later by blast
qed

text \<open>
  The same at 5 ms, 30 ms and 80 ms for the first trial, on the first suite of the
  catalogue: three, two and one trial, seen on the clock, which also counts the pauses of
  50 ms between the trials; and for the second payload of a suite whose first payload
  fails.
\<close>

theorem adaptive_repetition_witness:
  "(\<exists>r. runBenchmark browser_runtime (timed 2 3 LocalStorageAdapter) (suites ! 0) freshBrowser
           = Fulfilled [r]
               (freshBrowser\<lparr>clock := 5 + 50 + 5 + 50 + 5,
                  localStorage := [(''bench_128 B'', replicate 128 CHR ''a'')]\<rparr>) \<and>
         writeTime r = 2 \<and> readTime r = 3 \<and> error r = None) \<and>
   (\<exists>r. runBenchmark browser_runtime (timed 10 20 LocalStorageAdapter) (suites ! 0) freshBrowser
           = Fulfilled [r]
               (freshBrowser\<lparr>clock := 30 + 50 + 30,
                  localStorage := [(''bench_128 B'', replicate 128 CHR ''a'')]\<rparr>) \<and>
         writeTime r = 10 \<and> readTime r = 20 \<and> error r = None) \<and>
   (\<exists>r. runBenchmark browser_runtime (timed 30 50 LocalStorageAdapter) (suites ! 0) freshBrowser
           = Fulfilled [r]
               (freshBrowser\<lparr>clock := 80,
                  localStorage := [(''bench_128 B'', replicate 128 CHR ''a'')]\<rparr>) \<and>
         writeTime r = 30 \<and> readTime r = 50 \<and> error r = None) \<and>
   (\<exists>e r. runBenchmark browser_runtime (timed 2 3 LocalStorageAdapter) twoPayloads smallQuota
           = Fulfilled [e, r]
               (smallQuota\<lparr>clock := 2 + 5 + 50 + 5 + 50 + 5,
                  localStorage := [(''bench_16 B'', replicate 16 CHR ''a'')]\<rparr>) \<and>
         error e = Some ''The quota has been exceeded.'' \<and>
         writeTime r = 2 \<and> readTime r = 3 \<and> error r = None)"
proof -
  let ?S = "suites ! 0"
  let ?p = "\<lparr>label = ''128 B'', payload_size = 128\<rparr>"
  let ?key = "''bench_'' @ label ?p" and ?data = "replicate 128 CHR ''a''"
  let ?w = "\<lambda>t. freshBrowser\<lparr>clock := t, localStorage := [(''bench_128 B'', ?data)]\<rparr>"
  have S: "?S\<lparr>payloads := [] @ [?p]\<rparr> = ?S"
    by (simp add: suites_def)
  have b: "runBenchmark browser_runtime A (?S\<lparr>payloads := []\<rparr>) freshBrowser
             = Fulfilled [] freshBrowser" for A
    by (simp add: runBenchmark_def)
  have g: "generatePayload (maxStringLength browser_runtime) (payload_size ?p) = Inr ?data"
    by (simp add: generatePayload_def browser_runtime_def)
  have f3: "runOnce browser_runtime (timed 2 3 LocalStorageAdapter) ?key ?data freshBrowser
              = Fulfilled (2, 3) (?w 5)"
    by (simp add: engine_simps LocalStorageAdapter_simps freshBrowser_def)
  have r3: "furtherTrials browser_runtime (timed 2 3 LocalStorageAdapter) ?key ?data (3 - 1) (?w 5)
              = Fulfilled [(2, 3), (2, 3)] (?w 115)"
    by (simp add: engine_simps LocalStorageAdapter_simps freshBrowser_def numeral_2_eq_2)
  have f2: "runOnce browser_runtime (timed 10 20 LocalStorageAdapter) ?key ?data freshBrowser
              = Fulfilled (10, 20) (?w 30)"
    by (simp add: engine_simps LocalStorageAdapter_simps freshBrowser_def)
  have r2: "furtherTrials browser_runtime (timed 10 20 LocalStorageAdapter) ?key ?data (2 - 1) (?w 30)
              = Fulfilled [(10, 20)] (?w 110)"
    by (simp add: engine_simps LocalStorageAdapter_simps freshBrowser_def)
  have f1: "runOnce browser_runtime (timed 30 50 LocalStorageAdapter) ?key ?data freshBrowser
              = Fulfilled (30, 50) (?w 80)"
    by (simp add: engine_simps LocalStorageAdapter_simps freshBrowser_def)
  have r1: "furtherTrials browser_runtime (timed 30 50 LocalStorageAdapter) ?key ?data (1 - 1) (?w 80)
              = Fulfilled [] (?w 80)"
    by simp
  have n3: "(3::nat) = (if (2::real) + 3 < 10 then 3 else if (2::real) + 3 < 50 then 2 else 1)"
    and n2: "(2::nat) = (if (10::real) + 20 < 10 then 3 else if (10::real) + 20 < 50 then 2 else 1)"
    and n1: "(1::nat) = (if (30::real) + 50 < 10 then 3 else if (30::real) + 50 < 50 then 2 else 1)"
    by simp_all
  let ?q1 = "\<lparr>label = ''128 B'', payload_size = 128\<rparr>"
  let ?q2 = "\<lparr>label = ''16 B'', payload_size = 16\<rparr>"
  let ?e = "\<lparr>adapterName = ''localStorage'', suiteName = ''Two payloads'',
             payloadSize = ''128 B'', writeTime = 0, readTime = 0, blockingTime = 0,
             error = Some ''The quota has been exceeded.''\<rparr>"
  let ?key2 = "''bench_'' @ label ?q2" and ?data2 = "replicate 16 CHR ''a''"
  let ?v = "\<lambda>t. smallQuota\<lparr>clock := t, localStorage := [(''bench_16 B'', ?data2)]\<rparr>"
  have T: "twoPayloads\<lparr>payloads := [?q1] @ [?q2]\<rparr> = twoPayloads"
    by (simp add: twoPayloads_def)
  have bq: "runBenchmark browser_runtime (timed 2 3 LocalStorageAdapter)
              (twoPayloads\<lparr>payloads := [?q1]\<rparr>) smallQuota
              = Fulfilled [?e] (smallQuota\<lparr>clock := 2\<rparr>)"
    by (simp add: engine_simps LocalStorageAdapter_simps freshBrowser_def twoPayloads_def
          smallQuota_def QuotaExceededError_def)
  have gq: "generatePayload (maxStringLength browser_runtime) (payload_size ?q2) = Inr ?data2"
    by (simp add: generatePayload_def browser_runtime_def)
  have fq: "runOnce browser_runtime (timed 2 3 LocalStorageAdapter) ?key2 ?data2
              (smallQuota\<lparr>clock := 2\<rparr>) = Fulfilled (2, 3) (?v 7)"
    by (simp add: engine_simps LocalStorageAdapter_simps freshBrowser_def smallQuota_def)
  have rq: "furtherTrials browser_runtime (timed 2 3 LocalStorageAdapter) ?key2 ?data2 (3 - 1) (?v 7)
              = Fulfilled [(2, 3), (2, 3)] (?v 117)"
    by (simp add: engine_simps LocalStorageAdapter_simps freshBrowser_def smallQuota_def
          numeral_2_eq_2)
  have c3: "\<exists>r. runBenchmark browser_runtime (timed 2 3 LocalStorageAdapter) ?S freshBrowser
                 = Fulfilled [r] (?w (5 + 50 + 5 + 50 + 5)) \<and>
               writeTime r = 2 \<and> readTime r = 3 \<and> error r = None"
    using adaptive_repetition [OF b g f3 n3 r3] unfolding S
    apply (elim conjE exE)
    subgoal premises h for r
      using h(2,3,4,5) by (intro exI [of _ r]) simp
    done
  have c2: "\<exists>r. runBenchmark browser_runtime (timed 10 20 LocalStorageAdapter) ?S freshBrowser
                 = Fulfilled [r] (?w (30 + 50 + 30)) \<and>
               writeTime r = 10 \<and> readTime r = 20 \<and> error r = None"
    using adaptive_repetition [OF b g f2 n2 r2] unfolding S
    apply (elim conjE exE)
    subgoal premises h for r
      using h(2,3,4,5) by (intro exI [of _ r]) simp
    done
  have c1: "\<exists>r. runBenchmark browser_runtime (timed 30 50 LocalStorageAdapter) ?S freshBrowser
                 = Fulfilled [r] (?w 80) \<and>
               writeTime r = 30 \<and> readTime r = 50 \<and> error r = None"
    using adaptive_repetition [OF b g f1 n1 r1] unfolding S
    apply (elim conjE exE)
    subgoal premises h for r
      using h(2,3,4,5) by (intro exI [of _ r]) simp
    done
  have cq: "\<exists>e r. runBenchmark browser_runtime (timed 2 3 LocalStorageAdapter) twoPayloads
                   smallQuota = Fulfilled [e, r] (?v (2 + 5 + 50 + 5 + 50 + 5)) \<and>
               error e = Some ''The quota has been exceeded.'' \<and>
               writeTime r = 2 \<and> readTime r = 3 \<and> error r = None"
    using adaptive_repetition [OF bq gq fq n3 rq] unfolding T
    apply (elim conjE exE)
    subgoal premises h for r
      using h(2,3,4,5) by (intro exI [of _ ?e] exI [of _ r]) simp
    done
  show ?thesis
    using c3 c2 c1 cq by (intro conjI)
qed

text \<open>
  C3. With a monotonic clock, every result that \<^verbatim>\<open>runBenchmark\<close> returns either has its
  error set and both times zero, or has no error and both times at least zero.
\<close>

theorem result_error_or_timings:
  assumes "clock_monotone rt A" and "runBenchmark rt A S w = Fulfilled rs w'"
  shows "\<forall>r \<in> set rs.
           (error r \<noteq> None \<and> writeTime r = 0 \<and> readTime r = 0) \<or>
           (error r = None \<and> 0 \<le> writeTime r \<and> 0 \<le> readTime r)"
proof (rule runBenchmark_all [OF _ _ assms(2)])
  fix p key data w0 w1 r
  assume ok: "tryBlock rt A S p key data w0 = Fulfilled r w1"
  show "(error r \<noteq> None \<and> writeTime r = 0 \<and> readTime r = 0) \<or>
        (error r = None \<and> 0 \<le> writeTime r \<and> 0 \<le> readTime r)"
    using tryBlock_nonneg [OF assms(1) ok] tryBlock_fields [OF ok] by simp
next
  fix p e r
  assume "catchBlock A S p e = Inr r"
  then show "(error r \<noteq> None \<and> writeTime r = 0 \<and> readTime r = 0) \<or>
        (error r = None \<and> 0 \<le> writeTime r \<and> 0 \<le> readTime r)"
    using catchBlock_fields by blast
qed

theorem result_error_or_timings_witness:
  "clock_monotone browser_runtime (timed 2 3 LocalStorageAdapter) \<and>
   (\<exists>rs w'. runBenchmark browser_runtime (timed 2 3 LocalStorageAdapter) twoPayloads smallQuota
               = Fulfilled rs w' \<and>
             map error rs = [Some ''The quota has been exceeded.'', None] \<and>
             map writeTime rs = [0, 2] \<and> map readTime rs = [0, 3])"
proof -
  have mono: "clock_monotone browser_runtime (timed 2 3 LocalStorageAdapter)"
    by (rule timed_clock_monotone) (simp_all add: LocalStorageAdapter_clock)
  show ?thesis
    using mono result_error_or_timings [OF mono twoPayloads_run]
    by (simp add: twoPayloads_run)
qed

text \<open>
  C4. A failing payload can abort the suite. The adapter \<open>rejectsWithoutReason\<close> rejects
  every write with \<^verbatim>\<open>undefined\<close>. In the first trial of the first payload of \<open>twoPayloads\<close>
  the \<^verbatim>\<open>catch\<close> block reads \<^verbatim>\<open>e.message\<close> of that value, which throws a TypeError inside the
  block: no result is recorded for the payload, the second payload is not tried, and
  \<^verbatim>\<open>runBenchmark\<close> is rejected with the TypeError.
\<close>

theorem rejection_without_reason_aborts_suite:
  "runBenchmark browser_runtime rejectsWithoutReason twoPayloads freshBrowser =
     Rejected (TypeError ''Cannot read properties of undefined'') freshBrowser"
  by (simp add: engine_simps rejectsWithoutReason_def twoPayloads_def nullishProperty_def
        freshBrowser_def)

text \<open>
  C7. In every result without an error that \<^verbatim>\<open>runBenchmark\<close> returns, the blocking time is
  the sum of the write time and the read time when the adapter's name is localStorage,
  sessionStorage or Cookies, and one half of a millisecond for every other adapter.
\<close>

theorem blocking_time_estimate:
  assumes "runBenchmark rt A S w = Fulfilled rs w'"
  shows "\<forall>r \<in> set rs.
      error r = None \<longrightarrow>
        (name A \<in> {''localStorage'', ''sessionStorage'', ''Cookies''}
           \<longrightarrow> blockingTime r = writeTime r + readTime r) \<and>
        (name A \<notin> {''localStorage'', ''sessionStorage'', ''Cookies''}
           \<longrightarrow> blockingTime r = 1 / 2)"
proof (rule runBenchmark_all [OF _ _ assms])
  fix p key data w0 w1 r
  assume ok: "tryBlock rt A S p key data w0 = Fulfilled r w1"
  show "error r = None \<longrightarrow>
        (name A \<in> {''localStorage'', ''sessionStorage'', ''Cookies''}
           \<longrightarrow> blockingTime r = writeTime r + readTime r) \<and>
        (name A \<notin> {''localStorage'', ''sessionStorage'', ''Cookies''}
           \<longrightarrow> blockingTime r = 1 / 2)"
    using tryBlock_fields [OF ok] by (auto simp: isSync_def)
next
  fix p e r
  assume "catchBlock A S p e = Inr r"
  then show "error r = None \<longrightarrow>
        (name A \<in> {''localStorage'', ''sessionStorage'', ''Cookies''}
           \<longrightarrow> blockingTime r = writeTime r + readTime r) \<and>
        (name A \<notin> {''localStorage'', ''sessionStorage'', ''Cookies''}
           \<longrightarrow> blockingTime r = 1 / 2)"
    using catchBlock_fields by blast
qed

theorem blocking_time_estimate_witness:
  "(\<exists>rs w'. runBenchmark browser_runtime (timed 2 3 LocalStorageAdapter) twoPayloads smallQuota
               = Fulfilled rs w' \<and>
             map blockingTime rs = [0, 2 + 3] \<and>
             map error rs = [Some ''The quota has been exceeded.'', None]) \<and>
   (\<exists>rs w'. runBenchmark browser_runtime (timed 2 3 IndexedDBAdapter) twoPayloads smallQuota
               = Fulfilled rs w' \<and>
             map blockingTime rs = [1 / 2, 1 / 2] \<and> map error rs = [None, None])"
  using blocking_time_estimate [OF twoPayloads_run]
    blocking_time_estimate [OF twoPayloads_run_IndexedDB]
  by (simp add: twoPayloads_run twoPayloads_run_IndexedDB)

section \<open>Properties of the adapters\<close>

subsection \<open>split and join\<close>

lemma split_not_Nil: "split sep s \<noteq> []"
  by (induction s) (auto split: list.splits)

lemma split_no_sep: "sep \<notin> set xs \<Longrightarrow> split sep xs = [xs]"
  by (induction xs) auto

lemma split_append_sep:
  "sep \<notin> set xs \<Longrightarrow> split sep (xs @ sep # ys) = xs # split sep ys"
  by (induction xs) auto

lemma hd_split_before_sep:
  "sep \<notin> set xs \<Longrightarrow> hd (split sep (xs @ sep # ys)) = xs"
  by (simp add: split_append_sep)

lemma split_join:
  assumes "\<forall>x \<in> set xs. CHR '';'' \<notin> set x" "xs \<noteq> []"
  shows "split CHR '';'' (join ''; '' xs) = hd xs # map ((#) CHR 0x20) (tl xs)"
  using assms
proof (induction xs rule: induct_list012)
  case 1
  then show ?case by simp
next
  case (2 x)
  then show ?case by (simp add: split_no_sep)
next
  case (3 x y ys)
  have "split CHR '';'' (x @ CHR '';'' # CHR 0x20 # join ''; '' (y # ys))
          = x # split CHR '';'' (CHR 0x20 # join ''; '' (y # ys))"
    using 3 by (simp add: split_append_sep)
  moreover have "split CHR '';'' (join ''; '' (y # ys)) = y # map ((#) CHR 0x20) ys"
    using 3 by simp
  ultimately show ?case by simp
qed

subsection \<open>trimming\<close>

lemma dropWhile_id: "xs \<noteq> [] \<Longrightarrow> \<not> P (hd xs) \<Longrightarrow> dropWhile P xs = xs"
  by (cases xs) auto

lemma trim_id:
  assumes "s \<noteq> []" "\<not> isWhiteSpace (hd s)" "\<not> isWhiteSpace (last s)"
  shows "trim s = s"
proof -
  have "dropWhile isWhiteSpace s = s"
    using assms by (simp add: dropWhile_id)
  moreover have "dropWhile isWhiteSpace (rev s) = rev s"
    using assms by (simp add: dropWhile_id hd_rev)
  ultimately show ?thesis by (simp add: trim_def)
qed

lemma trim_space_Cons:
  assumes "s \<noteq> []" "\<not> isWhiteSpace (hd s)" "\<not> isWhiteSpace (last s)"
  shows "trim (CHR 0x20 # s) = s"
proof -
  have "dropWhile isWhiteSpace (CHR 0x20 # s) = s"
    using assms by (simp add: dropWhile_id isWhiteSpace_def)
  moreover have "dropWhile isWhiteSpace (rev s) = rev s"
    using assms by (simp add: dropWhile_id hd_rev)
  ultimately show ?thesis by (simp add: trim_def)
qed

lemma dropWhile_none: "\<forall>c \<in> set s. \<not> P c \<Longrightarrow> dropWhile P s = s"
  by (cases s) auto

lemma trimWSP_no_WSP: "\<forall>c \<in> set s. \<not> isWSP c \<Longrightarrow> trimWSP s = s"
  by (simp add: trimWSP_def dropWhile_none)

subsection \<open>The URI functions\<close>

lemma nat_less_16_cases:
  "(d::nat) < 16 \<Longrightarrow>
     d = 0 \<or> d = 1 \<or> d = 2 \<or> d = 3 \<or> d = 4 \<or> d = 5 \<or> d = 6 \<or> d = 7 \<or>
     d = 8 \<or> d = 9 \<or> d = 10 \<or> d = 11 \<or> d = 12 \<or> d = 13 \<or> d = 14 \<or> d = 15"
  by arith

lemma hexValue_hexDigitUpper: "d < 16 \<Longrightarrow> hexValue (hexDigitUpper d) = Some d"
  by (drule nat_less_16_cases) (auto simp: hexValue_def hexDigitUpper_def)

lemma hexValue_hexDigitLower: "d < 16 \<Longrightarrow> hexValue (hexDigitLower d) = Some d"
  by (drule nat_less_16_cases) (auto simp: hexValue_def hexDigitLower_def)

lemma uriUnreserved_hexDigitUpper: "uriUnreserved (hexDigitUpper d)"
proof -
  have "d mod 16 < 16" by simp
  from nat_less_16_cases [OF this] show ?thesis
    by (auto simp: hexDigitUpper_def uriUnreserved_def)
qed

lemma of_char_less_256: "(of_char c :: nat) < 256"
  by (cases c) simp

lemma of_char_div_16: "(of_char c :: nat) div 16 < 16"
  using of_char_less_256 [of c] by arith

lemma decode_percentEncode:
  "decodeURIComponent (percentEncode c @ rest) = map_option ((#) c) (decodeURIComponent rest)"
proof -
  have "char_of (16 * (of_char c div 16) + of_char c mod 16 :: nat) = c"
    by simp
  then show ?thesis
    by (simp add: percentEncode_def hexValue_hexDigitUpper of_char_div_16)
qed

lemma unreserved_not_percent: "uriUnreserved c \<Longrightarrow> c \<noteq> CHR ''%''"
  by (auto simp: uriUnreserved_def)

lemma decode_encode: "decodeURIComponent (encodeURIComponent s) = Some s"
proof (induction s)
  case Nil
  show ?case by (simp add: encodeURIComponent_def)
next
  case (Cons c s)
  show ?case
  proof (cases "uriUnreserved c")
    case True
    then show ?thesis
      using Cons unreserved_not_percent [OF True] by (simp add: encodeURIComponent_def)
  next
    case False
    then show ?thesis
      using Cons decode_percentEncode [of c "encodeURIComponent s"]
      by (simp add: encodeURIComponent_def)
  qed
qed

lemma encodeURIComponent_chars: "c \<in> set (encodeURIComponent s) \<Longrightarrow> cookieOctet c"
  by (induction s)
     (auto simp: encodeURIComponent_def percentEncode_def cookieOctet_def
        uriUnreserved_hexDigitUpper split: if_splits)

lemma cookieOctet_plain:
  assumes "cookieOctet c"
  shows "c \<noteq> CHR '';''" "c \<noteq> CHR ''=''" "c \<noteq> CHR 0x20" "\<not> isWSP c" "\<not> isCTL c"
    "\<not> isWhiteSpace c"
  using assms
  by (auto simp: cookieOctet_def uriUnreserved_def isWSP_def isCTL_def isWhiteSpace_def)


lemma encodeURIComponent_unreserved:
  "\<forall>c \<in> set s. uriUnreserved c \<Longrightarrow> encodeURIComponent s = s"
  by (induction s) (auto simp: encodeURIComponent_def)

lemma encodeURIComponent_payload:
  "encodeURIComponent (replicate n CHR ''a'') = replicate n CHR ''a''"
  by (rule encodeURIComponent_unreserved) (simp add: uriUnreserved_def)

subsection \<open>Assigning to document.cookie\<close>

lemma splitAtFirst_append:
  "c \<notin> set xs \<Longrightarrow> splitAtFirst c (xs @ c # ys) = (xs, Some ys)"
  by (induction xs) (auto simp: splitAtFirst_def)

lemma toLower_max_age: "map toLower ''Max-Age'' = ''max-age''"
  by (simp add: toLower_def char_of_eq_iff)

lemma toLower_path: "map toLower ''path'' \<noteq> ''max-age''"
  by (simp add: toLower_def)

lemma trimWSP_examples:
  "trimWSP '' Max-Age'' = ''Max-Age''" "trimWSP '' path'' = ''path''"
  "trimWSP ''3600'' = ''3600''" "trimWSP ''-99999999'' = ''-99999999''"
  by (simp_all add: trimWSP_def isWSP_def)

lemma attributeMaxAge_examples:
  "attributeMaxAge '' path=/'' = None"
  "attributeMaxAge '' Max-Age=3600'' = Some 3600"
  "attributeMaxAge '' Max-Age=-99999999'' = Some (- 99999999)"
  "attributeMaxAge [] = None"
  by (simp_all add: attributeMaxAge_def splitAtFirst_def trimWSP_def isWSP_def toLower_def
        char_of_eq_iff parseMaxAge_def isDigit_def digitsValue_def)

lemma cookieMaxAge_write: "cookieMaxAge ['' path=/'', '' Max-Age=3600''] = Some 3600"
  by (simp add: cookieMaxAge_def attributeMaxAge_examples)

lemma cookieMaxAge_delete:
  "cookieMaxAge ['' path=/'', '' Max-Age=-99999999'', []] = Some (- 99999999)"
  by (simp add: cookieMaxAge_def attributeMaxAge_examples)

lemma split_write_attrs: "split CHR '';'' '' path=/; Max-Age=3600'' = ['' path=/'', '' Max-Age=3600'']"
  by simp

lemma split_delete_attrs:
  "split CHR '';'' '' path=/; Max-Age=-99999999;'' = ['' path=/'', '' Max-Age=-99999999'', []]"
  by simp

lemma hasSecureAttribute_examples:
  "\<not> hasSecureAttribute ['' path=/'', '' Max-Age=3600'']"
  "\<not> hasSecureAttribute ['' path=/'', '' Max-Age=-99999999'', []]"
  by (simp_all add: hasSecureAttribute_def splitAtFirst_def trimWSP_def isWSP_def toLower_def)

lemma jarAccepts_cookieJar [simp]: "jarAccepts (w\<lparr>cookieJar := j\<rparr>) = jarAccepts w"
  by (simp add: fun_eq_iff jarAccepts_def)

lemma document_cookie_set_write:
  assumes n: "\<forall>c \<in> set n. cookieOctet c" and v: "\<forall>c \<in> set v. cookieOctet c"
  shows "document_cookie_set (n @ ''='' @ v @ ''; path=/; Max-Age=3600'') w =
           (if jarAccepts w n v then w\<lparr>cookieJar := AList.update n v (cookieJar w)\<rparr> else w)"
proof -
  have semi: "CHR '';'' \<notin> set (n @ ''='' @ v)"
    using n v cookieOctet_plain(1) by auto
  have eq: "CHR ''='' \<notin> set n"
    using n cookieOctet_plain(2) by auto
  have sp: "split CHR '';'' (n @ ''='' @ v @ ''; path=/; Max-Age=3600'')
              = (n @ ''='' @ v) # ['' path=/'', '' Max-Age=3600'']"
    using split_append_sep [OF semi, of "'' path=/; Max-Age=3600''"]
    by (simp add: split_write_attrs del: split.simps)
  have pair: "splitAtFirst CHR ''='' (n @ CHR ''='' # v) = (n, Some v)"
    using splitAtFirst_append [OF eq, of v] by simp
  have tn: "trimWSP n = n" and tv: "trimWSP v = v"
    using n v cookieOctet_plain(4) by (simp_all add: trimWSP_no_WSP)
  have ctl: "\<not> list_ex isCTL (n @ ''='' @ v @ ''; path=/; Max-Age=3600'')"
    using n v cookieOctet_plain(5) by (auto simp: list_ex_iff isCTL_def)
  show ?thesis
    unfolding document_cookie_set_def sp
    using ctl
    by (auto simp add: pair tn tv cookieMaxAge_write hasSecureAttribute_examples jarAccepts_def
          simp del: split.simps)
qed

lemma document_cookie_set_delete:
  assumes n: "\<forall>c \<in> set n. cookieOctet c"
  shows "document_cookie_set (n @ ''=; path=/; Max-Age=-99999999;'') w =
           (if jarAccepts w n [] then w\<lparr>cookieJar := AList.delete n (cookieJar w)\<rparr> else w)"
proof -
  have semi: "CHR '';'' \<notin> set (n @ ''='')"
    using n cookieOctet_plain(1) by auto
  have eq: "CHR ''='' \<notin> set n"
    using n cookieOctet_plain(2) by auto
  have sp: "split CHR '';'' (n @ ''=; path=/; Max-Age=-99999999;'')
              = (n @ ''='') # ['' path=/'', '' Max-Age=-99999999'', []]"
    using split_append_sep [OF semi, of "'' path=/; Max-Age=-99999999;''"]
    by (simp add: split_delete_attrs del: split.simps)
  have pair: "splitAtFirst CHR ''='' (n @ [CHR ''='']) = (n, Some [])"
    using splitAtFirst_append [OF eq, of "[]"] by simp
  have tn: "trimWSP n = n"
    using n cookieOctet_plain(4) by (simp add: trimWSP_no_WSP)
  have tnil: "trimWSP [] = []"
    by (simp add: trimWSP_def)
  have ctl: "\<not> list_ex isCTL (n @ ''=; path=/; Max-Age=-99999999;'')"
    using n cookieOctet_plain(5) by (auto simp: list_ex_iff isCTL_def)
  show ?thesis
    unfolding document_cookie_set_def sp
    using ctl
    by (auto simp add: pair tn tnil cookieMaxAge_delete hasSecureAttribute_examples
          jarAccepts_def simp del: split.simps)
qed

lemma CookieAdapter_write_eq:
  "CookieAdapter_write key val w =
     Fulfilled ()
       (if jarAccepts w (encodeURIComponent key) (encodeURIComponent val)
        then w\<lparr>cookieJar :=
                 AList.update (encodeURIComponent key) (encodeURIComponent val) (cookieJar w)\<rparr>
        else w)"
  using document_cookie_set_write [of "encodeURIComponent key" "encodeURIComponent val" w]
  by (simp add: CookieAdapter_write_def encodeURIComponent_chars)

lemma CookieAdapter_delete_eq:
  "CookieAdapter_delete key w =
     Fulfilled ()
       (if jarAccepts w (encodeURIComponent key) []
        then w\<lparr>cookieJar := AList.delete (encodeURIComponent key) (cookieJar w)\<rparr>
        else w)"
  using document_cookie_set_delete [of "encodeURIComponent key" w]
  by (simp add: CookieAdapter_delete_def encodeURIComponent_chars)

subsection \<open>Reading document.cookie\<close>

lemma cookieText_fun: "cookieText = (\<lambda>(n, v). if n = [] then v else n @ ''='' @ v)"
  by (auto simp: fun_eq_iff cookieText_def)

lemma document_cookie_eq: "document_cookie w = join ''; '' (map cookieText (cookieJar w))"
  by (simp add: document_cookie_def cookieText_fun)

lemma cookieText_ok:
  assumes "cookie_ok limit c"
  shows "cookieText c = fst c @ CHR ''='' # snd c" "CHR '';'' \<notin> set (cookieText c)"
    "cookieText c \<noteq> []" "hd (cookieText c) = hd (fst c)"
  using assms by (auto simp: cookie_ok_def cookieText_def split: prod.splits)

lemma parts_of_jar:
  assumes "list_all (cookie_ok limit) jar" "jar \<noteq> []"
  shows "list_all2 (\<lambda>p c. p = cookieText c \<or> p = CHR 0x20 # cookieText c)
           (split CHR '';'' (join ''; '' (map cookieText jar))) jar"
proof -
  have semi: "\<forall>x \<in> set (map cookieText jar). CHR '';'' \<notin> set x"
    using assms(1) cookieText_ok(2) by (auto simp: list_all_iff)
  have ne: "map cookieText jar \<noteq> []"
    using assms(2) by simp
  obtain c cs where jar: "jar = c # cs"
    using assms(2) by (cases jar) auto
  have "split CHR '';'' (join ''; '' (map cookieText jar))
          = cookieText c # map ((#) CHR 0x20) (map cookieText cs)"
    using split_join [OF semi ne] jar by simp
  moreover have "list_all2 (\<lambda>p c. p = cookieText c \<or> p = CHR 0x20 # cookieText c)
                   (map ((#) CHR 0x20) (map cookieText cs)) cs"
    by (simp add: list_all2_conv_all_nth)
  ultimately show ?thesis
    using jar by simp
qed

lemma name_prefix_iff:
  assumes "CHR ''='' \<notin> set a" "CHR ''='' \<notin> set b"
  shows "take (length (a @ ''='')) (b @ CHR ''='' # v) = a @ ''='' \<longleftrightarrow> a = b"
proof
  assume "a = b"
  then show "take (length (a @ ''='')) (b @ CHR ''='' # v) = a @ ''=''"
    by simp
next
  assume t: "take (length (a @ ''='')) (b @ CHR ''='' # v) = a @ ''=''"
  have "b @ CHR ''='' # v = (a @ ''='') @ drop (length (a @ ''='')) (b @ CHR ''='' # v)"
    using t append_take_drop_id [of "length (a @ ''='')" "b @ CHR ''='' # v"] by simp
  then have "takeWhile (\<lambda>x. x \<noteq> CHR ''='') (b @ CHR ''='' # v)
               = takeWhile (\<lambda>x. x \<noteq> CHR ''='')
                   (a @ CHR ''='' # drop (length (a @ ''='')) (b @ CHR ''='' # v))"
    by simp
  moreover have "takeWhile (\<lambda>x. x \<noteq> CHR ''='') (b @ CHR ''='' # v) = b"
    using assms(2) by (auto simp: takeWhile_tail)
  moreover have "takeWhile (\<lambda>x. x \<noteq> CHR ''='')
                   (a @ CHR ''='' # drop (length (a @ ''='')) (b @ CHR ''='' # v)) = a"
    using assms(1) by (auto simp: takeWhile_tail)
  ultimately show "a = b" by simp
qed

lemma read_loop_jar:
  assumes "list_all2 (\<lambda>p c. p = cookieText c \<or> p = CHR 0x20 # cookieText c) parts jar"
    and "list_all (cookie_ok limit) jar" and "CHR ''='' \<notin> set k"
  shows "CookieAdapter_read_loop (k @ ''='') parts =
           (case map_of jar k of
              None \<Rightarrow> Inr None
            | Some v \<Rightarrow> (case decodeURIComponent v of
                           None \<Rightarrow> Inl URIError
                         | Some x \<Rightarrow> Inr (Some x)))"
  using assms
proof (induction parts jar rule: list_all2_induct)
  case Nil
  then show ?case by simp
next
  case (Cons p parts c jar)
  obtain n v where c: "c = (n, v)" by (cases c)
  have ok: "cookie_ok limit (n, v)"
    using Cons.prems c by simp
  have ct: "cookieText c = n @ CHR ''='' # v"
    using cookieText_ok(1) [OF ok] c by simp
  have nsp: "n \<noteq> []" "hd n \<noteq> CHR 0x20" "CHR ''='' \<notin> set n"
    using ok by (auto simp: cookie_ok_def isWhiteSpace_def)
  have drop: "dropWhile (\<lambda>x. x = CHR 0x20) p = n @ CHR ''='' # v"
    using Cons.hyps(1) ct nsp by (cases n) auto
  have IH: "CookieAdapter_read_loop (k @ ''='') parts =
           (case map_of jar k of
              None \<Rightarrow> Inr None
            | Some v \<Rightarrow> (case decodeURIComponent v of
                           None \<Rightarrow> Inl URIError
                         | Some x \<Rightarrow> Inr (Some x)))"
    using Cons by simp
  show ?case
  proof (cases "k = n")
    case True
    have "take (length (k @ ''='')) (n @ CHR ''='' # v) = k @ ''=''"
      using True by simp
    moreover have "drop (length (k @ ''='')) (n @ CHR ''='' # v) = v"
      using True by simp
    ultimately show ?thesis
      using True c drop by (simp add: Let_def)
  next
    case False
    have "take (length (k @ ''='')) (n @ CHR ''='' # v) \<noteq> k @ ''=''"
      using name_prefix_iff [OF Cons.prems(2) nsp(3), of v] False by simp
    then show ?thesis
      using False c drop IH by (simp add: Let_def)
  qed
qed

lemma CookieAdapter_read_eq:
  assumes "jar_ok w"
  shows "CookieAdapter_read key w =
           (case map_of (cookieJar w) (encodeURIComponent key) of
              None \<Rightarrow> Fulfilled None w
            | Some v \<Rightarrow> (case decodeURIComponent v of
                           None \<Rightarrow> Rejected URIError w
                         | Some x \<Rightarrow> Fulfilled (Some x) w))"
proof (cases "cookieJar w = []")
  case True
  then show ?thesis
    by (simp add: CookieAdapter_read_def document_cookie_def Let_def)
next
  case False
  have eq: "CHR ''='' \<notin> set (encodeURIComponent key)"
    using encodeURIComponent_chars cookieOctet_plain(2) by blast
  have ok: "list_all (cookie_ok (cookieLimit w)) (cookieJar w)"
    using assms by (simp add: jar_ok_def)
  show ?thesis
    using read_loop_jar [OF parts_of_jar [OF ok False] ok eq]
    by (simp add: CookieAdapter_read_def document_cookie_eq Let_def
          split: option.splits)
qed

subsection \<open>The loop of CookieAdapter.clear\<close>

lemma clear_key_of_part:
  assumes "cookie_ok limit c" "p = cookieText c \<or> p = CHR 0x20 # cookieText c"
  shows "trim (case split CHR ''='' p of [] \<Rightarrow> [] | x # xs \<Rightarrow> x) = fst c"
proof -
  obtain n v where c: "c = (n, v)" by (cases c)
  have n: "n \<noteq> []" "CHR ''='' \<notin> set n" "\<not> isWhiteSpace (hd n)" "\<not> isWhiteSpace (last n)"
    using assms(1) c by (auto simp: cookie_ok_def)
  have ct: "cookieText c = n @ CHR ''='' # v"
    using cookieText_ok(1) [OF assms(1)] c by simp
  from assms(2) show ?thesis
  proof
    assume "p = cookieText c"
    then have "split CHR ''='' p = n # split CHR ''='' v"
      using ct n(2) by (simp add: split_append_sep)
    then show ?thesis
      using n c by (simp add: trim_id)
  next
    assume "p = CHR 0x20 # cookieText c"
    then have "p = (CHR 0x20 # n) @ CHR ''='' # v"
      using ct by simp
    moreover have "CHR ''='' \<notin> set (CHR 0x20 # n)"
      using n(2) by simp
    ultimately have "split CHR ''='' p = (CHR 0x20 # n) # split CHR ''='' v"
      using split_append_sep [of "CHR ''=''" "CHR 0x20 # n" v] by simp
    then show ?thesis
      using n c by (simp add: trim_space_Cons)
  qed
qed

lemma clearStep_cookieJar [simp]: "clearStep (w\<lparr>cookieJar := j\<rparr>) = clearStep w"
  by (simp add: fun_eq_iff clearStep_def)

lemma clear_loop_jar:
  assumes "list_all2 (\<lambda>p c. p = cookieText c \<or> p = CHR 0x20 # cookieText c) parts cs"
    and "list_all (cookie_ok limit) cs"
  shows "CookieAdapter_clear_loop parts w =
           Fulfilled () (w\<lparr>cookieJar := fold (clearStep w) cs (cookieJar w)\<rparr>)"
  using assms
proof (induction parts cs arbitrary: w rule: list_all2_induct)
  case Nil
  then show ?case by simp
next
  case (Cons p parts c cs)
  have ok: "cookie_ok limit c"
    using Cons.prems by simp
  have key: "trim (case split CHR ''='' p of [] \<Rightarrow> [] | x # xs \<Rightarrow> x) = fst c"
    using clear_key_of_part [OF ok Cons.hyps(1)] .
  let ?w1 = "w\<lparr>cookieJar := clearStep w c (cookieJar w)\<rparr>"
  have "w\<lparr>cookieJar := cookieJar w\<rparr> = w"
    by simp
  then have del: "CookieAdapter_delete (fst c) w = Fulfilled () ?w1"
    by (simp add: CookieAdapter_delete_eq clearStep_def)
  have IH: "CookieAdapter_clear_loop parts ?w1 =
           Fulfilled () (?w1\<lparr>cookieJar := fold (clearStep ?w1) cs (cookieJar ?w1)\<rparr>)"
    using Cons.IH [of ?w1] Cons.prems by simp
  show ?case
    using key del IH by (simp add: Let_def del: split.simps)
qed

lemma CookieAdapter_clear_eq:
  assumes "jar_ok w"
  shows "CookieAdapter_clear w =
           Fulfilled () (w\<lparr>cookieJar := fold (clearStep w) (cookieJar w) (cookieJar w)\<rparr>)"
proof (cases "cookieJar w = []")
  case True
  have "trim [] = []" by (simp add: trim_def)
  then show ?thesis
    using True
    by (simp add: CookieAdapter_clear_def document_cookie_def CookieAdapter_delete_eq Let_def)
next
  case False
  have ok: "list_all (cookie_ok (cookieLimit w)) (cookieJar w)"
    using assms by (simp add: jar_ok_def)
  show ?thesis
    using clear_loop_jar [OF parts_of_jar [OF ok False] ok, of w]
    by (simp add: CookieAdapter_clear_def document_cookie_eq)
qed

lemma set_clearStep: "set (clearStep limit c jar) \<subseteq> set jar"
  by (auto simp: clearStep_def AList.delete_eq)

lemma set_fold_clearStep: "set (fold (clearStep limit) cs jar) \<subseteq> set jar"
proof (induction cs arbitrary: jar)
  case Nil
  show ?case by simp
next
  case (Cons c cs)
  show ?case
    using Cons [of "clearStep limit c jar"] set_clearStep [of limit c jar] by auto
qed

lemma map_of_clearStep_None:
  "map_of jar k = None \<Longrightarrow> map_of (clearStep limit c jar) k = None"
  by (simp add: clearStep_def delete_conv')

lemma map_of_fold_clearStep_None:
  "map_of jar k = None \<Longrightarrow> map_of (fold (clearStep limit) cs jar) k = None"
  by (induction cs arbitrary: jar) (simp_all add: map_of_clearStep_None)

subsection \<open>JSON text of a string\<close>

lemma parse_quoteJSONChar:
  "parseJSONChars (quoteJSONChar c @ rest) = map_option ((#) c) (parseJSONChars rest)"
proof (cases "(of_char c :: nat) < 32")
  case False
  then show ?thesis
    by (auto simp: quoteJSONChar_def unescapeJSON_def)
next
  case True
  have lo: "(of_char c :: nat) div 16 < 8" "(of_char c :: nat) mod 16 < 16"
    using True by simp_all
  have c: "char_of (16 * (of_char c div 16) + of_char c mod 16 :: nat) = c"
    by simp
  have z: "hexValue CHR ''0'' = Some 0"
    by (simp add: hexValue_def)
  have d1: "hexValue (hexDigitLower (of_char c div 16)) = Some (of_char c div 16)"
    using lo(1) by (simp add: hexValue_hexDigitLower)
  have d2: "hexValue (hexDigitLower (of_char c mod 16)) = Some (of_char c mod 16)"
    by (simp add: hexValue_hexDigitLower)
  show ?thesis
    using True lo(1) c
    by (auto simp: quoteJSONChar_def unescapeJSON_def z d1 d2)
qed

lemma parse_quoted: "parseJSONChars (concat (map quoteJSONChar s) @ [CHR 0x22]) = Some s"
  by (induction s) (simp_all add: parse_quoteJSONChar)

lemma JSON_parse_stringify: "JSON_parse_string (JSON_stringify s) = Some s"
  by (simp add: JSON_parse_string_def JSON_stringify_def parse_quoted)

lemma JSON_stringify_not_Nil: "JSON_stringify s \<noteq> []"
  by (simp add: JSON_stringify_def)

lemma store_deserialize_stringify: "store_deserialize (Some (JSON_stringify s)) = Some s"
  by (simp add: store_deserialize_def JSON_parse_stringify JSON_stringify_not_Nil)

subsection \<open>Write, then read, adapter by adapter\<close>

lemma map_of_update_same: "map_of (AList.update k v al) k = Some v"
  by (simp add: update_conv')


lemma statusOf_simps [simp]:
  "statusOf (JsError msg st) = Inr st" "statusOf Nullish = Inl nullishProperty"
  by (simp_all add: statusOf_def)



lemma IndexedDBAdapter_round_trip:
  "IndexedDBAdapter_write k v w = Fulfilled u w1 \<Longrightarrow>
   IndexedDBAdapter_read k w1 = Fulfilled (if v = [] then None else Some v) w1"
  by (auto simp: IndexedDBAdapter_write_def IndexedDBAdapter_read_def getDB_def
        map_of_update_same split: option.splits)



lemma StoreJsAdapter_round_trip:
  "StoreJsAdapter_write k v w = Fulfilled u w1 \<Longrightarrow>
   StoreJsAdapter_read k w1 = Fulfilled (if v = [] then None else Some v) w1"
  by (auto simp: StoreJsAdapter_write_def StoreJsAdapter_read_def Storage_setItem_def
        Storage_getItem_def Let_def map_of_update_same store_deserialize_stringify
        split: if_splits)

lemma pouch_put_Inr:
  "pouch_put k rv v del docs = Inr docs' \<Longrightarrow>
   \<exists>r. docs' = AList.update k \<lparr>doc_rev = r, doc_value = v, doc_deleted = del\<rparr> docs"
  by (auto simp: pouch_put_def split: if_splits option.splits)







lemmas adapter_defs =
  LocalStorageAdapter_def SessionStorageAdapter_def IndexedDBAdapter_def
  CacheStorageAdapter_def CookieAdapter_def DexieAdapter_def StoreJsAdapter_def
  PouchDBAdapter_def LocalForageAdapter_def OPFSAdapter_def

lemma encode_bench_128: "encodeURIComponent ''bench_128 B'' = ''bench_128%20B''"
  by (simp add: encodeURIComponent_def uriUnreserved_def percentEncode_def hexDigitUpper_def)

lemma OPFS_without_capability:
  assumes "opfsRoot w = None"
  shows "OPFSAdapter_write k v w = Rejected (JsError (Some ''OPFS not supported'') None) w"
    "OPFSAdapter_delete k w = Rejected (JsError (Some ''OPFS not supported'') None) w"
    "OPFSAdapter_clear w = Rejected (JsError (Some ''OPFS not supported'') None) w"
    "OPFSAdapter_read k w = Fulfilled None w"
  using assms
  by (simp_all add: OPFSAdapter_write_def OPFSAdapter_delete_def OPFSAdapter_clear_def
        OPFSAdapter_read_def getRoot_def)

lemma delete_absent_key_other_adapters:
  assumes "A \<in> set adapters" "name A \<noteq> ''OPFS''" "read A k w = Fulfilled None w1"
  shows "\<exists>w2. delete A k w = Fulfilled () w2"
proof -
  from assms(1,2) consider
      "A = LocalStorageAdapter" | "A = SessionStorageAdapter" | "A = IndexedDBAdapter"
    | "A = CacheStorageAdapter" | "A = CookieAdapter" | "A = DexieAdapter"
    | "A = StoreJsAdapter" | "A = PouchDBAdapter" | "A = LocalForageAdapter"
    by (auto simp: adapters_def OPFSAdapter_def)
  then show ?thesis
  proof cases
    case 4
    then show ?thesis
      using assms(3)
      by (auto simp: CacheStorageAdapter_def CacheStorageAdapter_read_def
            CacheStorageAdapter_delete_def split: prod.splits option.splits)
  next
    case 8
    then show ?thesis
      using assms(3)
      by (auto simp: PouchDBAdapter_def PouchDBAdapter_read_def PouchDBAdapter_delete_def
            Let_def split: sum.splits if_splits)
  qed (simp_all add: adapter_defs LocalStorageAdapter_delete_def SessionStorageAdapter_delete_def
         IndexedDBAdapter_delete_def CookieAdapter_delete_def DexieAdapter_delete_def
         StoreJsAdapter_delete_def LocalForageAdapter_delete_def split: prod.splits)
qed

subsection \<open>Clearing PouchDB\<close>

lemma pouch_bulkDocs_live:
  assumes "\<forall>(i, r) \<in> set ds. i \<noteq> [] \<and> hd i \<noteq> CHR ''_''"
    and "\<forall>(i, r) \<in> set ds. \<forall>d. map_of docs i = Some d \<longrightarrow> \<not> doc_deleted d \<longrightarrow> doc_rev d = r"
    and "map_of (pouch_bulkDocs ds docs) k = Some d" "\<not> doc_deleted d"
  shows "k \<notin> fst ` set ds \<and> map_of docs k = Some d"
  using assms
proof (induction ds arbitrary: docs)
  case Nil
  then show ?case by simp
next
  case (Cons ir ds)
  obtain i r where ir: "ir = (i, r)" by (cases ir)
  have valid: "i \<noteq> []" "hd i \<noteq> CHR ''_''"
    using Cons.prems(1) ir by auto
  have rest_valid: "\<forall>(i, r) \<in> set ds. i \<noteq> [] \<and> hd i \<noteq> CHR ''_''"
    using Cons.prems(1) by auto
  show ?case
  proof (cases "pouch_put i (Some r) [] True docs")
    case (Inl e)
    have dead: "\<forall>d'. map_of docs i = Some d' \<longrightarrow> doc_deleted d'"
    proof (intro allI impI)
      fix d'
      assume d': "map_of docs i = Some d'"
      show "doc_deleted d'"
      proof (rule ccontr)
        assume "\<not> doc_deleted d'"
        then have "doc_rev d' = r"
          using Cons.prems(2) ir d' by auto
        then show False
          using Inl d' valid by (simp add: pouch_put_def)
      qed
    qed
    have Q: "\<forall>(i, r) \<in> set ds. \<forall>d. map_of docs i = Some d \<longrightarrow> \<not> doc_deleted d \<longrightarrow> doc_rev d = r"
      using Cons.prems(2) by auto
    have res: "map_of (pouch_bulkDocs ds docs) k = Some d"
      using Cons.prems(3) Inl ir by simp
    from Cons.IH [OF rest_valid Q res Cons.prems(4)]
    have k: "k \<notin> fst ` set ds" "map_of docs k = Some d"
      by simp_all
    have "k \<noteq> i"
      using k(2) dead Cons.prems(4) by auto
    then show ?thesis
      using k ir by simp
  next
    case (Inr docs')
    from pouch_put_Inr [OF Inr] obtain r' where
      docs': "docs' = AList.update i \<lparr>doc_rev = r', doc_value = [], doc_deleted = True\<rparr> docs"
      by blast
    have at_i: "map_of docs' i = Some \<lparr>doc_rev = r', doc_value = [], doc_deleted = True\<rparr>"
      using docs' by (simp add: map_of_update_same)
    have other: "\<And>j. j \<noteq> i \<Longrightarrow> map_of docs' j = map_of docs j"
      using docs' by (simp add: update_conv')
    have Q: "\<forall>(j, r) \<in> set ds. \<forall>d. map_of docs' j = Some d \<longrightarrow> \<not> doc_deleted d \<longrightarrow> doc_rev d = r"
    proof (intro ballI, clarify)
      fix j rj dj
      assume j: "(j, rj) \<in> set ds" "map_of docs' j = Some dj" "\<not> doc_deleted dj"
      have "j \<noteq> i"
        using j(2,3) at_i by auto
      then have "map_of docs j = Some dj"
        using j(2) other by simp
      then show "doc_rev dj = rj"
        using Cons.prems(2) j(1,3) by auto
    qed
    have res: "map_of (pouch_bulkDocs ds docs') k = Some d"
      using Cons.prems(3) Inr ir by simp
    from Cons.IH [OF rest_valid Q res Cons.prems(4)]
    have k: "k \<notin> fst ` set ds" "map_of docs' k = Some d"
      by simp_all
    have "k \<noteq> i"
      using k(2) at_i Cons.prems(4) by auto
    then show ?thesis
      using k other ir by simp
  qed
qed

lemma pouch_clear_no_live_doc:
  assumes "pouch_ok w" "map_of (pouch_bulkDocs (pouch_allDocs (pouch_benchmark w)) (pouch_benchmark w)) k = Some d"
  shows "doc_deleted d"
proof (rule ccontr)
  let ?docs = "pouch_benchmark w"
  assume live: "\<not> doc_deleted d"
  have valid: "\<forall>(i, r) \<in> set (pouch_allDocs ?docs). i \<noteq> [] \<and> hd i \<noteq> CHR ''_''"
    using assms(1) by (force simp: pouch_ok_def pouch_allDocs_def)
  have Q: "\<forall>(i, r) \<in> set (pouch_allDocs ?docs).
             \<forall>d. map_of ?docs i = Some d \<longrightarrow> \<not> doc_deleted d \<longrightarrow> doc_rev d = r"
  proof (intro ballI, clarify)
    fix i r d'
    assume a: "(i, r) \<in> set (pouch_allDocs ?docs)" "map_of ?docs i = Some d'"
    then obtain d0 where "(i, d0) \<in> set ?docs" "doc_rev d0 = r"
      by (auto simp: pouch_allDocs_def)
    moreover have "distinct (map fst ?docs)"
      using assms(1) by (simp add: pouch_ok_def)
    ultimately have "map_of ?docs i = Some d0"
      by simp
    then show "doc_rev d' = r"
      using a(2) \<open>doc_rev d0 = r\<close> by simp
  qed
  from pouch_bulkDocs_live [OF valid Q assms(2) live]
  have "k \<notin> fst ` set (pouch_allDocs ?docs)" "map_of ?docs k = Some d"
    by simp_all
  moreover have "(k, doc_rev d) \<in> set (pouch_allDocs ?docs)"
    using map_of_SomeD [OF \<open>map_of ?docs k = Some d\<close>] live
    by (force simp: pouch_allDocs_def)
  ultimately show False
    by force
qed

lemma PouchDBAdapter_clear_read:
  assumes "pouch_ok w" "PouchDBAdapter_clear w = Fulfilled u w'"
  shows "PouchDBAdapter_read k w' = Fulfilled None w'"
proof -
  have w': "w' = w\<lparr>pouch_benchmark :=
              pouch_bulkDocs (pouch_allDocs (pouch_benchmark w)) (pouch_benchmark w)\<rparr>"
    using assms(2) by (simp add: PouchDBAdapter_clear_def Let_def)
  show ?thesis
    using pouch_clear_no_live_doc [OF assms(1), of k] w'
    by (auto simp: PouchDBAdapter_read_def pouch_get_def pouch_missing_def split: option.splits)
qed

subsection \<open>Clearing the origin private file system\<close>

lemma OPFSAdapter_clear_loop_done:
  "OPFSAdapter_clear_loop ns dir = (None, dir') \<Longrightarrow>
   dir' = filter (\<lambda>(k, v). k \<notin> set ns) dir"
proof (induction ns arbitrary: dir)
  case Nil
  then show ?case by simp
next
  case (Cons n ns)
  from Cons.prems obtain dir1 where
    r: "removeEntry n dir = Inr dir1" and l: "OPFSAdapter_clear_loop ns dir1 = (None, dir')"
    by (auto split: sum.splits)
  have "dir1 = AList.delete n dir"
    using r by (auto simp: removeEntry_def split: if_splits option.splits)
  then show ?case
    using Cons.IH [OF l] by (auto simp: AList.delete_eq intro: filter_cong)
qed

lemma OPFSAdapter_clear_read:
  assumes "OPFSAdapter_clear w = Fulfilled u w'"
  shows "OPFSAdapter_read k w' = Fulfilled None w'"
proof -
  from assms obtain dir dir' where
    dir: "opfsRoot w = Some dir" and l: "OPFSAdapter_clear_loop (map fst dir) dir = (None, dir')"
    and w': "w' = w\<lparr>opfsRoot := Some dir'\<rparr>"
    by (auto simp: OPFSAdapter_clear_def getRoot_def split: option.splits prod.splits)
  have "dir' = filter (\<lambda>(k, v). k \<notin> set (map fst dir)) dir"
    using OPFSAdapter_clear_loop_done [OF l] .
  then have "dir' = []"
    by (force simp: filter_empty_conv)
  then show ?thesis
    using w' by (simp add: OPFSAdapter_read_def getRoot_def getFileHandle_def)
qed

subsection \<open>What a clear changes and what a read looks at\<close>

lemma document_cookie_set_frame: "\<exists>j. document_cookie_set s w = w\<lparr>cookieJar := j\<rparr>"
proof -
  have same: "w = w\<lparr>cookieJar := cookieJar w\<rparr>"
    by simp
  show ?thesis
    unfolding document_cookie_set_def
    by (auto simp: Let_def split: list.splits prod.splits option.splits intro: exI [of _ "cookieJar w"])
qed

lemma CookieAdapter_clear_loop_frame:
  "CookieAdapter_clear_loop parts w = Fulfilled u w' \<Longrightarrow> \<exists>j. w' = w\<lparr>cookieJar := j\<rparr>"
proof (induction parts arbitrary: w)
  case Nil
  then have "w' = w\<lparr>cookieJar := cookieJar w\<rparr>"
    by simp
  then show ?case by blast
next
  case (Cons p parts)
  let ?key = "trim (case split CHR ''='' p of [] \<Rightarrow> [] | x # xs \<Rightarrow> x)"
  obtain j where j: "CookieAdapter_delete ?key w = Fulfilled () (w\<lparr>cookieJar := j\<rparr>)"
    using document_cookie_set_frame by (auto simp: CookieAdapter_delete_def)
  then have "CookieAdapter_clear_loop parts (w\<lparr>cookieJar := j\<rparr>) = Fulfilled u w'"
    using Cons.prems by (simp add: Let_def del: split.simps)
  from Cons.IH [OF this] obtain j' where "w' = w\<lparr>cookieJar := j, cookieJar := j'\<rparr>"
    by blast
  then have "w' = w\<lparr>cookieJar := j'\<rparr>"
    by simp
  then show ?case by blast
qed

lemma adapters_cases:
  assumes "A \<in> set adapters"
  obtains "A = LocalStorageAdapter" | "A = SessionStorageAdapter" | "A = IndexedDBAdapter"
    | "A = CacheStorageAdapter" | "A = CookieAdapter" | "A = DexieAdapter"
    | "A = StoreJsAdapter" | "A = PouchDBAdapter" | "A = LocalForageAdapter"
    | "A = OPFSAdapter"
  using assms by (auto simp: adapters_def)

lemma clear_frame:
  assumes "A \<in> set adapters" "clear A w = Fulfilled u w'"
  shows "same_elsewhere (name A) w w'"
  using assms(1)
proof (cases rule: adapters_cases)
  case 5
  then have "CookieAdapter_clear_loop (split CHR '';'' (document_cookie w)) w = Fulfilled u w'"
    using assms(2) by (simp add: CookieAdapter_def CookieAdapter_clear_def)
  from CookieAdapter_clear_loop_frame [OF this] obtain j where "w' = w\<lparr>cookieJar := j\<rparr>"
    by blast
  then show ?thesis
    using 5 by (simp add: same_elsewhere_def CookieAdapter_def)
next
  case 10
  then show ?thesis
    using assms(2)
    by (auto simp: same_elsewhere_def OPFSAdapter_def OPFSAdapter_clear_def getRoot_def
          split: option.splits prod.splits)
qed (use assms(2) in \<open>auto simp: same_elsewhere_def adapter_defs LocalStorageAdapter_clear_def
       SessionStorageAdapter_clear_def IndexedDBAdapter_clear_def getDB_def
       CacheStorageAdapter_clear_def DexieAdapter_clear_def StoreJsAdapter_clear_def
       PouchDBAdapter_clear_def LocalForageAdapter_clear_def Let_def
       split: option.splits prod.splits\<close>)

lemma read_frame:
  assumes "B \<in> set adapters" "same_elsewhere n w w'" "n \<noteq> name B"
    and "\<not> (n \<in> {''localStorage'', ''store.js''} \<and> name B \<in> {''localStorage'', ''store.js''})"
  shows "value_of (read B k w') = value_of (read B k w)"
  using assms(1)
proof (cases rule: adapters_cases)
  case 3
  then show ?thesis
    using assms(2,3)
    by (auto simp: same_elsewhere_def IndexedDBAdapter_def IndexedDBAdapter_read_def getDB_def
          split: option.splits)
next
  case 4
  then show ?thesis
    using assms(2,3)
    by (auto simp: same_elsewhere_def CacheStorageAdapter_def CacheStorageAdapter_read_def
          caches_open_def split: option.splits)
next
  case 5
  then show ?thesis
    using assms(2,3)
    by (auto simp: same_elsewhere_def CookieAdapter_def CookieAdapter_read_def
          document_cookie_def Let_def split: sum.splits)
next
  case 8
  then show ?thesis
    using assms(2,3)
    by (auto simp: same_elsewhere_def PouchDBAdapter_def PouchDBAdapter_read_def
          split: sum.splits)
next
  case 10
  then show ?thesis
    using assms(2,3)
    by (auto simp: same_elsewhere_def OPFSAdapter_def OPFSAdapter_read_def getRoot_def
          split: option.splits sum.splits)
qed (use assms(2,3,4) in \<open>auto simp: same_elsewhere_def adapter_defs
       LocalStorageAdapter_read_def SessionStorageAdapter_read_def DexieAdapter_read_def
       StoreJsAdapter_read_def LocalForageAdapter_read_def\<close>)

lemma adapter_names:
  "name LocalStorageAdapter = ''localStorage''" "name SessionStorageAdapter = ''sessionStorage''"
  "name IndexedDBAdapter = ''IndexedDB''" "name CacheStorageAdapter = ''Cache Storage''"
  "name CookieAdapter = ''Cookies''" "name DexieAdapter = ''Dexie.js''"
  "name StoreJsAdapter = ''store.js''" "name PouchDBAdapter = ''PouchDB''"
  "name LocalForageAdapter = ''localForage''" "name OPFSAdapter = ''OPFS''"
  by (simp_all add: adapter_defs)

lemma clear_then_read_own:
  assumes "A \<in> set adapters" "clear A w = Fulfilled u w'" "name A \<noteq> ''Cookies''"
    and "name A = ''PouchDB'' \<longrightarrow> pouch_ok w"
  shows "value_of (read A k w') = Some None \<or> (name A = ''Cache Storage'' \<and> parseURL w k = None)"
  using assms(1)
proof (cases rule: adapters_cases)
  case 4
  then show ?thesis
    using assms(2)
    by (auto simp: CacheStorageAdapter_def CacheStorageAdapter_clear_def
          CacheStorageAdapter_read_def caches_open_def split: option.splits)
next
  case 5
  then show ?thesis
    using assms(3) by (simp add: adapter_names)
next
  case 8
  then show ?thesis
    using assms(2,4) PouchDBAdapter_clear_read [of w u w' k]
    by (simp add: PouchDBAdapter_def)
next
  case 10
  then show ?thesis
    using assms(2) OPFSAdapter_clear_read [of w u w' k]
    by (simp add: OPFSAdapter_def)
qed (use assms(2) in \<open>auto simp: adapter_defs LocalStorageAdapter_clear_def
       LocalStorageAdapter_read_def SessionStorageAdapter_clear_def SessionStorageAdapter_read_def
       IndexedDBAdapter_clear_def IndexedDBAdapter_read_def getDB_def DexieAdapter_clear_def
       DexieAdapter_read_def StoreJsAdapter_clear_def StoreJsAdapter_read_def
       LocalForageAdapter_clear_def LocalForageAdapter_read_def Storage_getItem_def
       store_deserialize_def split: option.splits\<close>)

lemma shared_localStorage:
  assumes "A \<in> set adapters" "clear A w = Fulfilled u w'"
    and "name A \<in> {''localStorage'', ''store.js''}"
    and "B \<in> set adapters" "name B \<in> {''localStorage'', ''store.js''}"
  shows "value_of (read B k w') = Some None"
proof -
  have "A = LocalStorageAdapter \<or> A = StoreJsAdapter"
    using assms(1,3) by (cases rule: adapters_cases) (auto simp: adapter_names)
  then have empty: "localStorage w' = []"
    using assms(2)
    by (auto simp: adapter_defs LocalStorageAdapter_clear_def StoreJsAdapter_clear_def)
  have "B = LocalStorageAdapter \<or> B = StoreJsAdapter"
    using assms(4,5) by (cases rule: adapters_cases) (auto simp: adapter_names)
  then show ?thesis
    using empty
    by (auto simp: adapter_defs LocalStorageAdapter_read_def StoreJsAdapter_read_def
          Storage_getItem_def store_deserialize_def)
qed

lemma encode_bench_128_twice: "encodeURIComponent ''bench_128%20B'' = ''bench_128%2520B''"
  by (simp add: encodeURIComponent_def uriUnreserved_def percentEncode_def hexDigitUpper_def)

lemma payload_no_semicolon: "CHR '';'' \<notin> set (replicate n CHR ''a'')"
  by simp

lemma localStorage_clear_empties_storejs:
  "write StoreJsAdapter ''bench_128 B'' ''abc'' freshBrowser
     = Fulfilled ()
         (freshBrowser\<lparr>localStorage := [(''bench_128 B'', CHR 0x22 # ''abc'' @ [CHR 0x22])]\<rparr>) \<and>
   read StoreJsAdapter ''bench_128 B''
     (freshBrowser\<lparr>localStorage := [(''bench_128 B'', CHR 0x22 # ''abc'' @ [CHR 0x22])]\<rparr>)
     = Fulfilled (Some ''abc'')
         (freshBrowser\<lparr>localStorage := [(''bench_128 B'', CHR 0x22 # ''abc'' @ [CHR 0x22])]\<rparr>) \<and>
   clear LocalStorageAdapter
     (freshBrowser\<lparr>localStorage := [(''bench_128 B'', CHR 0x22 # ''abc'' @ [CHR 0x22])]\<rparr>)
     = Fulfilled () freshBrowser \<and>
   read StoreJsAdapter ''bench_128 B'' freshBrowser = Fulfilled None freshBrowser"
proof -
  let ?w1 = "freshBrowser\<lparr>localStorage := [(''bench_128 B'', CHR 0x22 # ''abc'' @ [CHR 0x22])]\<rparr>"
  have wr: "StoreJsAdapter_write ''bench_128 B'' ''abc'' freshBrowser = Fulfilled () ?w1"
    by (simp add: StoreJsAdapter_write_def Storage_setItem_def JSON_stringify_def
          quoteJSONChar_def area_size_def freshBrowser_def)
  have rd: "StoreJsAdapter_read ''bench_128 B'' ?w1 = Fulfilled (Some ''abc'') ?w1"
    using StoreJsAdapter_round_trip [OF wr] by simp
  have cl: "LocalStorageAdapter_clear ?w1 = Fulfilled () freshBrowser"
    by (simp add: LocalStorageAdapter_clear_def freshBrowser_def)
  have rd2: "StoreJsAdapter_read ''bench_128 B'' freshBrowser = Fulfilled None freshBrowser"
    by (simp add: StoreJsAdapter_read_def Storage_getItem_def store_deserialize_def
          freshBrowser_def)
  show ?thesis
    using wr rd cl rd2 by (simp add: StoreJsAdapter_def LocalStorageAdapter_def)
qed


lemma not_securePrefixed:
  "n \<noteq> [] \<Longrightarrow> toLower (hd n) \<noteq> CHR ''_'' \<Longrightarrow> \<not> securePrefixed n v"
  by (cases n) (simp_all add: securePrefixed_def Let_def)

lemma toLower_b: "toLower CHR ''b'' = CHR ''b''"
  by (simp add: toLower_def)

text \<open>A value that starts with a byte order mark comes back without it from the two
  adapters that read their entry with \<^verbatim>\<open>text()\<close>.\<close>

lemma byte_order_mark_is_dropped:
  "write OPFSAdapter ''bench_128 B'' ([CHR 0xEF, CHR 0xBB, CHR 0xBF] @ ''abc'') freshBrowser
     = Fulfilled ()
         (freshBrowser\<lparr>opfsRoot :=
            Some [(''bench_128 B'', [CHR 0xEF, CHR 0xBB, CHR 0xBF] @ ''abc'')]\<rparr>) \<and>
   read OPFSAdapter ''bench_128 B''
     (freshBrowser\<lparr>opfsRoot := Some [(''bench_128 B'', [CHR 0xEF, CHR 0xBB, CHR 0xBF] @ ''abc'')]\<rparr>)
     = Fulfilled (Some ''abc'')
         (freshBrowser\<lparr>opfsRoot :=
            Some [(''bench_128 B'', [CHR 0xEF, CHR 0xBB, CHR 0xBF] @ ''abc'')]\<rparr>)"
  by (simp add: OPFSAdapter_def OPFSAdapter_write_def OPFSAdapter_read_def getRoot_def
        getFileHandle_def validFileName_def utf8Decode_def freshBrowser_def)

subsection \<open>The specified properties of the adapters\<close>




text \<open>
  C6. After \<^verbatim>\<open>clear()\<close> of the cookie adapter a key written through that adapter does not
  read as absent. The payload of 128 bytes is written under the key \<^verbatim>\<open>bench_128 B\<close> of the
  first suite, into a browser that holds nothing else: the cookie has the encoded name
  \<^verbatim>\<open>bench_128%20B\<close>. \<^verbatim>\<open>clear\<close> takes this name from \<^verbatim>\<open>document.cookie\<close> and hands it to
  \<^verbatim>\<open>delete\<close>, which encodes it once more and so expires a cookie \<^verbatim>\<open>bench_128%2520B\<close> that
  does not exist: \<^verbatim>\<open>clear\<close> returns without an error and has changed nothing, and \<^verbatim>\<open>read\<close>
  still returns the payload. \<^verbatim>\<open>delete\<close> of the key itself does remove the cookie.
\<close>

theorem cookie_clear_keeps_written_key:
  "write CookieAdapter ''bench_128 B'' (replicate 128 CHR ''a'') freshBrowser
     = Fulfilled () (freshBrowser\<lparr>cookieJar := [(''bench_128%20B'', replicate 128 CHR ''a'')]\<rparr>) \<and>
   clear CookieAdapter
     (freshBrowser\<lparr>cookieJar := [(''bench_128%20B'', replicate 128 CHR ''a'')]\<rparr>)
     = Fulfilled () (freshBrowser\<lparr>cookieJar := [(''bench_128%20B'', replicate 128 CHR ''a'')]\<rparr>) \<and>
   read CookieAdapter ''bench_128 B''
     (freshBrowser\<lparr>cookieJar := [(''bench_128%20B'', replicate 128 CHR ''a'')]\<rparr>)
     = Fulfilled (Some (replicate 128 CHR ''a''))
         (freshBrowser\<lparr>cookieJar := [(''bench_128%20B'', replicate 128 CHR ''a'')]\<rparr>) \<and>
   delete CookieAdapter ''bench_128%20B''
     (freshBrowser\<lparr>cookieJar := [(''bench_128%20B'', replicate 128 CHR ''a'')]\<rparr>)
     = Fulfilled () (freshBrowser\<lparr>cookieJar := [(''bench_128%20B'', replicate 128 CHR ''a'')]\<rparr>) \<and>
   delete CookieAdapter ''bench_128 B''
     (freshBrowser\<lparr>cookieJar := [(''bench_128%20B'', replicate 128 CHR ''a'')]\<rparr>)
     = Fulfilled () freshBrowser"
proof -
  let ?v = "replicate 128 CHR ''a''"
  let ?w1 = "freshBrowser\<lparr>cookieJar := [(''bench_128%20B'', ?v)]\<rparr>"
  have acc: "jarAccepts freshBrowser ''bench_128%20B'' ?v"
    "jarAccepts freshBrowser ''bench_128%20B'' []"
    "jarAccepts freshBrowser ''bench_128%2520B'' []"
    by (simp_all add: jarAccepts_def not_securePrefixed toLower_b freshBrowser_def)
  have wr: "CookieAdapter_write ''bench_128 B'' ?v freshBrowser = Fulfilled () ?w1"
    using acc(1)
    by (simp add: CookieAdapter_write_eq encode_bench_128 encodeURIComponent_payload)
       (simp add: freshBrowser_def)
  have ok1: "jar_ok ?w1"
    by (simp add: jar_ok_def cookie_ok_def isWhiteSpace_def freshBrowser_def)
  have same: "?w1\<lparr>cookieJar := [(''bench_128%20B'', ?v)]\<rparr> = ?w1"
    by simp
  have cl: "CookieAdapter_clear ?w1 = Fulfilled () ?w1"
    using CookieAdapter_clear_eq [OF ok1] acc(3) same
    by (simp add: clearStep_def encode_bench_128_twice)
  have "decodeURIComponent ?v = Some ?v"
    using decode_encode [of ?v] by (simp add: encodeURIComponent_payload)
  then have rd: "CookieAdapter_read ''bench_128 B'' ?w1 = Fulfilled (Some ?v) ?w1"
    using CookieAdapter_read_eq [OF ok1, of "''bench_128 B''"]
    by (simp add: encode_bench_128)
  have d2: "CookieAdapter_delete ''bench_128%20B'' ?w1 = Fulfilled () ?w1"
    using acc(3) same by (simp add: CookieAdapter_delete_eq encode_bench_128_twice)
  have d1: "CookieAdapter_delete ''bench_128 B'' ?w1 = Fulfilled () freshBrowser"
    using acc(2) by (simp add: CookieAdapter_delete_eq encode_bench_128) (simp add: freshBrowser_def)
  show ?thesis
    using wr cl rd d2 d1 by (simp add: CookieAdapter_def)
qed

text \<open>
  C8. The claim is that \<^verbatim>\<open>delete\<close> of a key that is not present succeeds for every adapter.
  The OPFS adapter does not: with no file of that name, \<^verbatim>\<open>removeEntry\<close> rejects with a
  NotFoundError and \<^verbatim>\<open>delete\<close> lets it through, where the PouchDB adapter absorbs the
  status 404 of the same situation.
\<close>

theorem OPFS_delete_absent_key_rejects:
  "read OPFSAdapter ''bench_128 B'' freshBrowser = Fulfilled None freshBrowser \<and>
   delete OPFSAdapter ''bench_128 B'' freshBrowser = Rejected NotFoundError freshBrowser \<and>
   read PouchDBAdapter ''bench_128 B'' freshBrowser = Fulfilled None freshBrowser \<and>
   delete PouchDBAdapter ''bench_128 B'' freshBrowser = Fulfilled () freshBrowser"
  by (simp add: OPFSAdapter_def OPFSAdapter_read_def OPFSAdapter_delete_def getRoot_def
        getFileHandle_def removeEntry_def validFileName_def PouchDBAdapter_def
        PouchDBAdapter_read_def PouchDBAdapter_delete_def pouch_get_def pouch_missing_def
        freshBrowser_def)

text \<open>
  C9. The claim is that without the capability every operation of the OPFS adapter fails
  with \<^verbatim>\<open>OPFS not supported\<close>. \<^verbatim>\<open>write\<close>, \<^verbatim>\<open>delete\<close> and \<^verbatim>\<open>clear\<close> do; \<^verbatim>\<open>read\<close> calls
  \<^verbatim>\<open>getRoot\<close> inside its \<^verbatim>\<open>try\<close> block and answers \<^verbatim>\<open>null\<close>.
\<close>

theorem OPFS_read_hides_missing_capability:
  "read OPFSAdapter ''bench_128 B'' (freshBrowser\<lparr>opfsRoot := None\<rparr>)
     = Fulfilled None (freshBrowser\<lparr>opfsRoot := None\<rparr>) \<and>
   write OPFSAdapter ''bench_128 B'' (replicate 128 CHR ''a'') (freshBrowser\<lparr>opfsRoot := None\<rparr>)
     = Rejected (JsError (Some ''OPFS not supported'') None) (freshBrowser\<lparr>opfsRoot := None\<rparr>) \<and>
   delete OPFSAdapter ''bench_128 B'' (freshBrowser\<lparr>opfsRoot := None\<rparr>)
     = Rejected (JsError (Some ''OPFS not supported'') None) (freshBrowser\<lparr>opfsRoot := None\<rparr>) \<and>
   clear OPFSAdapter (freshBrowser\<lparr>opfsRoot := None\<rparr>)
     = Rejected (JsError (Some ''OPFS not supported'') None) (freshBrowser\<lparr>opfsRoot := None\<rparr>)"
  by (simp add: OPFSAdapter_def OPFS_without_capability)

text \<open>
  C10. For the IndexedDB adapter and the store.js adapter, after a \<^verbatim>\<open>write(k, v)\<close> that
  returned without an error, \<^verbatim>\<open>read(k)\<close> answers \<^verbatim>\<open>null\<close> when \<open>v\<close> is the empty string and
  \<open>v\<close> itself otherwise: for these two the round trip fails exactly at the empty string.
\<close>

theorem empty_string_reads_as_absent:
  assumes "A = IndexedDBAdapter \<or> A = StoreJsAdapter" and "write A k v w = Fulfilled u w1"
  shows "\<exists>w2. read A k w1 = Fulfilled (if v = [] then None else Some v) w2"
  using assms IndexedDBAdapter_round_trip [of k v w u w1] StoreJsAdapter_round_trip [of k v w u w1]
  by (auto simp: IndexedDBAdapter_def StoreJsAdapter_def)

theorem empty_string_reads_as_absent_witness:
  "write StoreJsAdapter ''bench_128 B'' [] freshBrowser =
     Fulfilled () (freshBrowser\<lparr>localStorage := [(''bench_128 B'', [CHR 0x22, CHR 0x22])]\<rparr>) \<and>
   value_of (read StoreJsAdapter ''bench_128 B''
     (freshBrowser\<lparr>localStorage := [(''bench_128 B'', [CHR 0x22, CHR 0x22])]\<rparr>)) = Some None \<and>
   write IndexedDBAdapter ''bench_128 B'' [] freshBrowser =
     Fulfilled () (freshBrowser\<lparr>benchmark_db := Some [(''bench_128 B'', [])]\<rparr>) \<and>
   value_of (read IndexedDBAdapter ''bench_128 B''
     (freshBrowser\<lparr>benchmark_db := Some [(''bench_128 B'', [])]\<rparr>)) = Some None"
proof -
  have s: "write StoreJsAdapter ''bench_128 B'' [] freshBrowser =
     Fulfilled () (freshBrowser\<lparr>localStorage := [(''bench_128 B'', [CHR 0x22, CHR 0x22])]\<rparr>)"
    by (simp add: StoreJsAdapter_def StoreJsAdapter_write_def Storage_setItem_def
          JSON_stringify_def area_size_def freshBrowser_def)
  have i: "write IndexedDBAdapter ''bench_128 B'' [] freshBrowser =
     Fulfilled () (freshBrowser\<lparr>benchmark_db := Some [(''bench_128 B'', [])]\<rparr>)"
    by (simp add: IndexedDBAdapter_def IndexedDBAdapter_write_def getDB_def freshBrowser_def)
  show ?thesis
    using s i empty_string_reads_as_absent [OF disjI2, OF refl s]
      empty_string_reads_as_absent [OF disjI1, OF refl i]
    by auto
qed

end
